theory Spec2Isabelle
  imports Complex_Main "HOL-Library.Word" "HOL-Library.Sublist"
begin

section \<open>Values handed to the tool\<close>

text \<open>
  A JavaScript string is a sequence of UTF-16 code units, and \<open>length\<close> counts code
  units. Literals of the source that are plain ASCII are written through \<open>ascii\<close>.
\<close>

type_synonym jstring = "16 word list"

definition ascii :: "string \<Rightarrow> jstring" where
  "ascii s = map of_char s"

text \<open>
  \<open>processThought\<close> takes the \<open>arguments\<close> member of a tool call, that is, whatever
  \<open>JSON.parse\<close> built, or \<open>undefined\<close> when the member is missing. The numbers of such
  a value are the finite doubles, read here as the rationals they denote (comparison and
  \<open>Number.isInteger\<close> are exact on them), and the two infinities that an overflowing
  numeral parses to. Objects keep their own properties as an association list.
\<close>

datatype jsval =
    JUndefined
  | JNull
  | JBool bool
  | JNum rat
  | JInfinity bool  \<comment> \<open>\<open>True\<close> for \<open>+Infinity\<close>, \<open>False\<close> for \<open>-Infinity\<close>\<close>
  | JStr jstring
  | JArr "jsval list"
  | JObj "(jstring \<times> jsval) list"

datatype jstype = TUndefined | TObject | TBoolean | TNumber | TString

fun typeof :: "jsval \<Rightarrow> jstype" where
  "typeof JUndefined = TUndefined"
| "typeof JNull = TObject"
| "typeof (JBool _) = TBoolean"
| "typeof (JNum _) = TNumber"
| "typeof (JInfinity _) = TNumber"
| "typeof (JStr _) = TString"
| "typeof (JArr _) = TObject"
| "typeof (JObj _) = TObject"

fun truthy :: "jsval \<Rightarrow> bool" where
  "truthy JUndefined = False"
| "truthy JNull = False"
| "truthy (JBool b) = b"
| "truthy (JNum q) = (q \<noteq> 0)"
| "truthy (JInfinity _) = True"
| "truthy (JStr s) = (s \<noteq> [])"
| "truthy (JArr _) = True"
| "truthy (JObj _) = True"

text \<open>
  Reading a named property, \<open>data.name\<close>. Only the field names of the tool are ever
  read; none of them is a property of a boolean, number, string or array, nor of
  \<open>Object.prototype\<close>, so the read gives \<open>undefined\<close> unless the value is an object that
  owns the property. Reading a property of \<open>null\<close> or \<open>undefined\<close> throws; the callers
  below test for that before they read.
\<close>

fun getprop :: "jsval \<Rightarrow> jstring \<Rightarrow> jsval" where
  "getprop (JObj kvs) k = (case map_of kvs k of Some v \<Rightarrow> v | None \<Rightarrow> JUndefined)"
| "getprop _ k = JUndefined"

text \<open>
  The object with one property set to a given value, the others as they were (setting it
  to \<open>undefined\<close> reads like its absence). The source never writes to its input; this
  serves to state that a result does not depend on a field.
\<close>

fun setprop :: "jsval \<Rightarrow> jstring \<Rightarrow> jsval \<Rightarrow> jsval" where
  "setprop (JObj kvs) k v = JObj ((k, v) # kvs)"
| "setprop d k v = d"

text \<open>\<open>typeof v === 'number' && Number.isInteger(v) && v >= 1\<close>; an infinity is no integer.\<close>

fun positive_integer :: "jsval \<Rightarrow> rat option" where
  "positive_integer (JNum q) = (if of_int \<lfloor>q\<rfloor> = q \<and> 1 \<le> q then Some q else None)"
| "positive_integer _ = None"

section \<open>The data of a thought\<close>

record KnowledgeAssessment =
  entity :: jstring
  status :: jstring

record ThoughtData =
  thought :: jstring
  thoughtNumber :: rat
  totalThoughts :: rat
  nextThoughtNeeded :: bool
  confidence_score :: "rat option"
  knowledge_assessment :: "KnowledgeAssessment list option"
  isRevision :: "bool option"
  revisesThought :: "rat option"
  branchFromThought :: "rat option"
  branchId :: "jstring option"

text \<open>
  What is thrown: an \<open>Error\<close> with the message the source gives it, or the engine's
  \<open>TypeError\<close> (its message is the engine's own and is not modelled).
\<close>

datatype exn = Error string | TypeError

text \<open>The lines written to the console, one constructor for each message of the source.\<close>

datatype event =
    WarnRevisionUnclear
  | WarnBranchIdMissing
  | WarnDeprecated
  | WarnAdjustingTotal rat rat
  | StartingNewBranch jstring rat
  | Formatted jstring
  | ErrorProcessing exn

section \<open>validateThoughtData\<close>

text \<open>The decimal numeral of an array index, as a template literal prints it.\<close>

fun digit_char :: "nat \<Rightarrow> char" where
  "digit_char n = ''0123456789'' ! (n mod 10)"

fun show_nat :: "nat \<Rightarrow> string" where
  "show_nat n = (if n < 10 then [digit_char n] else show_nat (n div 10) @ [digit_char n])"

definition msg_thought :: string where
  "msg_thought = ''Invalid input: `thought` is required and must be a non-empty string.''"

definition msg_thoughtNumber :: string where
  "msg_thoughtNumber = ''Invalid input: `thoughtNumber` is required and must be a positive integer.''"

definition msg_totalThoughts :: string where
  "msg_totalThoughts = ''Invalid input: `totalThoughts` is required and must be a positive integer.''"

definition msg_nextThoughtNeeded :: string where
  "msg_nextThoughtNeeded = ''Invalid input: `nextThoughtNeeded` is required and must be a boolean.''"

definition msg_confidence :: string where
  "msg_confidence = ''Invalid input: `confidence_score` must be a number between 0.0 and 1.0.''"

definition msg_knowledge_array :: string where
  "msg_knowledge_array = ''Invalid input: `knowledge_assessment` must be an array.''"

definition msg_item_object :: "nat \<Rightarrow> string" where
  "msg_item_object i =
     ''Invalid item in knowledge_assessment at index '' @ show_nat i @ '': must be an object.''"

definition msg_item_entity :: "nat \<Rightarrow> string" where
  "msg_item_entity i =
     ''Invalid item in knowledge_assessment at index '' @ show_nat i
       @ '': missing or invalid '' @ [CHR 0x27] @ ''entity'' @ [CHR 0x27] @ '' string.''"

definition msg_item_status :: "nat \<Rightarrow> string" where
  "msg_item_status i =
     ''Invalid item in knowledge_assessment at index '' @ show_nat i @ '': ''
       @ [CHR 0x27] @ ''status'' @ [CHR 0x27] @ '' must be ''
       @ [CHR 0x27] @ ''known'' @ [CHR 0x27] @ '', ''
       @ [CHR 0x27] @ ''unknown'' @ [CHR 0x27] @ '', or ''
       @ [CHR 0x27] @ ''uncertain'' @ [CHR 0x27] @ ''.''"

text \<open>The three checks on one element of \<open>knowledge_assessment\<close>, in the order of the source.\<close>

definition check_item :: "nat \<Rightarrow> jsval \<Rightarrow> exn + KnowledgeAssessment" where
  "check_item index item =
     (if typeof item \<noteq> TObject \<or> item = JNull then Inl (Error (msg_item_object index))
      else
        (case getprop item (ascii ''entity'') of
           JStr e \<Rightarrow>
             if e = [] then Inl (Error (msg_item_entity index))
             else
               (case getprop item (ascii ''status'') of
                  JStr s \<Rightarrow>
                    if s \<in> set [ascii ''known'', ascii ''unknown'', ascii ''uncertain'']
                    then Inr \<lparr>entity = e, status = s\<rparr>
                    else Inl (Error (msg_item_status index))
                | _ \<Rightarrow> Inl (Error (msg_item_status index)))
         | _ \<Rightarrow> Inl (Error (msg_item_entity index))))"

text \<open>\<open>Array.prototype.map\<close> with the index: the first element that throws ends the call.\<close>

fun map_items :: "nat \<Rightarrow> jsval list \<Rightarrow> exn + KnowledgeAssessment list" where
  "map_items index [] = Inr []"
| "map_items index (item # rest) =
     (case check_item index item of
        Inl e \<Rightarrow> Inl e
      | Inr k \<Rightarrow>
          (case map_items (Suc index) rest of
             Inl e \<Rightarrow> Inl e
           | Inr ks \<Rightarrow> Inr (k # ks)))"

text \<open>
  \<open>confidence_score\<close> is checked when it is not \<open>undefined\<close>: it must be a number, not
  below 0 and not above 1 (an infinity is a number outside that range).
\<close>

fun check_confidence :: "jsval \<Rightarrow> exn + rat option" where
  "check_confidence JUndefined = Inr None"
| "check_confidence (JNum q) =
     (if q < 0 \<or> q > 1 then Inl (Error msg_confidence) else Inr (Some q))"
| "check_confidence _ = Inl (Error msg_confidence)"

text \<open>\<open>knowledge_assessment\<close> is checked when it is not \<open>undefined\<close>: it must be an array.\<close>

fun check_knowledge :: "jsval \<Rightarrow> exn + KnowledgeAssessment list option" where
  "check_knowledge JUndefined = Inr None"
| "check_knowledge (JArr items) =
     (case map_items 0 items of Inl e \<Rightarrow> Inl e | Inr ks \<Rightarrow> Inr (Some ks))"
| "check_knowledge _ = Inl (Error msg_knowledge_array)"

text \<open>
  \<open>typeof v === 'boolean' ? v : undefined\<close> and \<open>typeof v === 'string' ? v : undefined\<close>.
\<close>

fun optional_boolean :: "jsval \<Rightarrow> bool option" where
  "optional_boolean (JBool b) = Some b"
| "optional_boolean _ = None"

fun optional_string :: "jsval \<Rightarrow> jstring option" where
  "optional_string (JStr s) = Some s"
| "optional_string _ = None"

text \<open>Truthiness of an optional number and of an optional string of a thought.\<close>

fun truthy_number :: "rat option \<Rightarrow> bool" where
  "truthy_number None = False"
| "truthy_number (Some q) = (q \<noteq> 0)"

fun truthy_string :: "jstring option \<Rightarrow> bool" where
  "truthy_string None = False"
| "truthy_string (Some s) = (s \<noteq> [])"

text \<open>The warnings of the validator, in the order in which the source prints them.\<close>

definition warnings :: "bool option \<Rightarrow> rat option \<Rightarrow> rat option \<Rightarrow> jstring option
    \<Rightarrow> bool option \<Rightarrow> event list" where
  "warnings isRev revises branchFrom bId needsMore =
     (if isRev = Some True \<and> revises = None then [WarnRevisionUnclear] else [])
     @ (if truthy_number branchFrom \<and> bId = None then [WarnBranchIdMissing] else [])
     @ (if needsMore \<noteq> None then [WarnDeprecated] else [])"

text \<open>
  The checks of the required fields, in the order of the source. The first read,
  \<open>data.thought\<close>, throws a \<open>TypeError\<close> when \<open>data\<close> is \<open>null\<close> or \<open>undefined\<close>.
\<close>

definition check_required :: "jsval \<Rightarrow> exn + (jstring \<times> rat \<times> rat \<times> bool)" where
  "check_required data =
     (if data = JUndefined \<or> data = JNull then Inl TypeError
      else
        (case getprop data (ascii ''thought'') of
           JStr th \<Rightarrow>
             if th = [] then Inl (Error msg_thought)
             else
               (case positive_integer (getprop data (ascii ''thoughtNumber'')) of
                  None \<Rightarrow> Inl (Error msg_thoughtNumber)
                | Some tn \<Rightarrow>
                    (case positive_integer (getprop data (ascii ''totalThoughts'')) of
                       None \<Rightarrow> Inl (Error msg_totalThoughts)
                     | Some tt \<Rightarrow>
                         (case getprop data (ascii ''nextThoughtNeeded'') of
                            JBool ntn \<Rightarrow> Inr (th, tn, tt, ntn)
                          | _ \<Rightarrow> Inl (Error msg_nextThoughtNeeded))))
         | _ \<Rightarrow> Inl (Error msg_thought)))"

text \<open>
  The validator returns the thought together with the warnings it printed, or the
  exception it threw. Every \<open>throw\<close> comes before the first warning.
\<close>

definition validateThoughtData :: "jsval \<Rightarrow> exn + (event list \<times> ThoughtData)" where
  "validateThoughtData data =
     (case check_required data of
        Inl e \<Rightarrow> Inl e
      | Inr (th, tn, tt, ntn) \<Rightarrow>
          (case check_confidence (getprop data (ascii ''confidence_score'')) of
             Inl e \<Rightarrow> Inl e
           | Inr conf \<Rightarrow>
               (case check_knowledge (getprop data (ascii ''knowledge_assessment'')) of
                  Inl e \<Rightarrow> Inl e
                | Inr ka \<Rightarrow>
                    (let isRev = optional_boolean (getprop data (ascii ''isRevision''));
                         revises = positive_integer (getprop data (ascii ''revisesThought''));
                         branchFrom = positive_integer (getprop data (ascii ''branchFromThought''));
                         bId = optional_string (getprop data (ascii ''branchId''));
                         needsMore = optional_boolean (getprop data (ascii ''needsMoreThoughts''))
                     in Inr (warnings isRev revises branchFrom bId needsMore,
                             \<lparr>thought = th,
                              thoughtNumber = tn,
                              totalThoughts = tt,
                              nextThoughtNeeded = ntn,
                              confidence_score = conf,
                              knowledge_assessment = ka,
                              isRevision = isRev,
                              revisesThought = revises,
                              branchFromThought = branchFrom,
                              branchId = bId\<rparr>)))))"

section \<open>stripAnsi\<close>

text \<open>
  The regular expression of \<open>stripAnsi\<close> is
  \<^verbatim>\<open>[\u001b\u009b][[()#;?]*(?:[0-9]{1,4}(?:;[0-9]{0,4})*)?[0-9A-ORZcf-nqry=><]\<close>.
  Each part below gives the texts that may remain after it has matched at the head of
  its argument, in the order in which a backtracking matcher tries them (a greedy
  quantifier tries the longest repetition first). The match that the engine reports is
  the first one found in that order.
\<close>

definition between :: "char \<Rightarrow> char \<Rightarrow> 16 word \<Rightarrow> bool" where
  "between lo hi c = (of_char lo \<le> c \<and> c \<le> of_char hi)"

definition is_digit :: "16 word \<Rightarrow> bool" where
  "is_digit c = between CHR ''0'' CHR ''9'' c"

definition is_intro :: "16 word \<Rightarrow> bool" where
  "is_intro c = (c \<in> set (ascii ''[()#;?''))"

definition is_final :: "16 word \<Rightarrow> bool" where
  "is_final c =
     (between CHR ''0'' CHR ''9'' c \<or> between CHR ''A'' CHR ''O'' c
      \<or> c \<in> set (ascii ''RZc'') \<or> between CHR ''f'' CHR ''n'' c
      \<or> c \<in> set (ascii ''qry=><''))"

fun greedy_star :: "(16 word \<Rightarrow> bool) \<Rightarrow> jstring \<Rightarrow> jstring list" where
  "greedy_star P [] = [[]]"
| "greedy_star P (c # cs) = (if P c then greedy_star P cs @ [c # cs] else [c # cs])"

fun greedy_upto :: "(16 word \<Rightarrow> bool) \<Rightarrow> nat \<Rightarrow> jstring \<Rightarrow> jstring list" where
  "greedy_upto P 0 s = [s]"
| "greedy_upto P (Suc n) [] = [[]]"
| "greedy_upto P (Suc n) (c # cs) =
     (if P c then greedy_upto P n cs @ [c # cs] else [c # cs])"

text \<open>\<^verbatim>\<open>[0-9]{1,4}\<close>\<close>

fun digits_1_4 :: "jstring \<Rightarrow> jstring list" where
  "digits_1_4 [] = []"
| "digits_1_4 (c # cs) = (if is_digit c then greedy_upto is_digit 3 cs else [])"

text \<open>\<^verbatim>\<open>(?:;[0-9]{0,4})*\<close>\<close>

function semicolon_groups :: "jstring \<Rightarrow> jstring list" where
  "semicolon_groups [] = [[]]"
| "semicolon_groups (c # cs) =
     (if c = of_char CHR '';''
      then concat (map semicolon_groups (greedy_upto is_digit 4 cs)) @ [c # cs]
      else [c # cs])"
  by pat_completeness auto
termination
proof (relation "measure length")
  show "wf (measure length)" by simp
next
  fix c :: "16 word" and cs x :: jstring
  assume x: "x \<in> set (greedy_upto is_digit 4 cs)"
  have "y \<in> set (greedy_upto P n s) \<Longrightarrow> length y \<le> length s" for P n s y
    by (induction P n s rule: greedy_upto.induct) (auto split: if_splits intro: le_SucI)
  from this [OF x] show "(x, c # cs) \<in> measure length" by simp
qed

text \<open>\<^verbatim>\<open>(?:[0-9]{1,4}(?:;[0-9]{0,4})*)?\<close>\<close>

definition parameters :: "jstring \<Rightarrow> jstring list" where
  "parameters s = concat (map semicolon_groups (digits_1_4 s)) @ [s]"

fun final_byte :: "jstring \<Rightarrow> jstring list" where
  "final_byte [] = []"
| "final_byte (c # cs) = (if is_final c then [cs] else [])"

text \<open>What may follow the escape character: introducers, parameters, final character.\<close>

definition sequence_tail :: "jstring \<Rightarrow> jstring list" where
  "sequence_tail s = concat (map final_byte (concat (map parameters (greedy_star is_intro s))))"

fun ansi_match :: "jstring \<Rightarrow> jstring list" where
  "ansi_match [] = []"
| "ansi_match (c # cs) = (if c = 0x1B \<or> c = 0x9B then sequence_tail cs else [])"

text \<open>
  \<open>str.replace(ansiRegex, '')\<close> with the \<open>g\<close> flag: at each position the first
  match, if there is one, is dropped and the scan goes on behind it; otherwise the code
  unit is kept. The scan is written with the text that remains of the current match
  still to be skipped, which makes it a recursion on the string.
\<close>

fun strip_scan :: "nat \<Rightarrow> jstring \<Rightarrow> jstring" where
  "strip_scan skip [] = []"
| "strip_scan (Suc skip) (c # cs) = strip_scan skip cs"
| "strip_scan 0 (c # cs) =
     (case ansi_match (c # cs) of
        [] \<Rightarrow> c # strip_scan 0 cs
      | r # _ \<Rightarrow> strip_scan (length cs - length r) cs)"

definition stripAnsi :: "jstring \<Rightarrow> jstring" where
  "stripAnsi str = strip_scan 0 str"

section \<open>formatThought\<close>

text \<open>
  What the renderer takes from outside the repository: the colour functions of
  \<open>chalk\<close> (their output depends on the colour level of the terminal), and the
  engine's conversion of a number to a string where it is not a plain decimal numeral.
\<close>

datatype colour = Blue | Yellow | Green | Cyan | Magenta | Red

record engine =
  chalk :: "colour \<Rightarrow> jstring \<Rightarrow> jstring"
  number_string_other :: "rat \<Rightarrow> jstring"

text \<open>
  \<open>`${n}`\<close>: an integer of magnitude below \<open>2^53\<close> prints as its decimal numeral;
  beyond that the digits depend on the double nearest to the value.
\<close>

definition number_string :: "engine \<Rightarrow> rat \<Rightarrow> jstring" where
  "number_string env q =
     (if of_int \<lfloor>q\<rfloor> = q \<and> \<bar>q\<bar> < 2 ^ 53
      then (if q < 0 then ascii ''-'' else []) @ ascii (show_nat (nat \<bar>\<lfloor>q\<rfloor>\<bar>))
      else number_string_other env q)"

text \<open>
  \<open>x.toFixed(2)\<close>: the integer \<open>n\<close> nearest to \<open>100 * x\<close> (the larger one on a tie),
  printed with at least three digits and a point before the last two.
\<close>

definition toFixed2 :: "engine \<Rightarrow> rat \<Rightarrow> jstring" where
  "toFixed2 env q =
     (if \<bar>q\<bar> < 10 ^ 21
      then (let n = nat \<lfloor>100 * \<bar>q\<bar> + 1 / 2\<rfloor>
            in (if q < 0 then ascii ''-'' else [])
               @ ascii (show_nat (n div 100) @ ''.'' @ [digit_char (n div 10), digit_char n]))
      else number_string env q)"

text \<open>The literals of the renderer that are not ASCII, by the code units the source file has.\<close>

definition lit_thought :: jstring where
  "lit_thought = [0xF8FF, 0xFC, 0xED, 0x2260] @ ascii '' Thought''"

definition lit_revision :: jstring where
  "lit_revision = [0xF8FF, 0xFC, 0xEE, 0xD1] @ ascii '' Revision''"

definition lit_branch :: jstring where
  "lit_branch = [0xF8FF, 0xFC, 0xE5, 0xF8] @ ascii '' Branch''"

definition box_horizontal :: jstring where "box_horizontal = [0x201A, 0xEE, 0xC4]"
definition box_dot :: jstring where "box_dot = [0xAC, 0x2211]"
definition box_vertical :: jstring where "box_vertical = [0x201A, 0xEE, 0xC7]"
definition box_top_left :: jstring where "box_top_left = [0x201A, 0xEE, 0xE5]"
definition box_top_right :: jstring where "box_top_right = [0x201A, 0xEE, 0xEA]"
definition box_tee_left :: jstring where "box_tee_left = [0x201A, 0xEE, 0xFA]"
definition box_tee_right :: jstring where "box_tee_right = [0x201A, 0xEE, 0xA7]"
definition box_bottom_left :: jstring where "box_bottom_left = [0x201A, 0xEE, 0xEE]"
definition box_bottom_right :: jstring where "box_bottom_right = [0x201A, 0xEE, 0xF2]"

definition newline :: "16 word" where "newline = 0x0A"

definition padEnd :: "jstring \<Rightarrow> nat \<Rightarrow> jstring" where
  "padEnd s n = s @ replicate (n - length s) (of_char CHR '' '')"

definition repeat :: "jstring \<Rightarrow> nat \<Rightarrow> jstring" where
  "repeat s n = concat (replicate n s)"

text \<open>\<open>s.split('\n')\<close>: never empty; the empty string splits into one empty line.\<close>

fun split_lines :: "jstring \<Rightarrow> jstring list" where
  "split_lines [] = [[]]"
| "split_lines (c # cs) =
     (if c = newline then [] # split_lines cs
      else (case split_lines cs of [] \<Rightarrow> [[c]] | l # ls \<Rightarrow> (c # l) # ls))"

text \<open>\<open>xs.join('\n')\<close>\<close>

fun join_lines :: "jstring list \<Rightarrow> jstring" where
  "join_lines [] = []"
| "join_lines [x] = x"
| "join_lines (x # y # zs) = x @ newline # join_lines (y # zs)"

text \<open>\<open>isRevision && revisesThought\<close> and \<open>branchFromThought && branchId\<close>.\<close>

definition revision_target :: "ThoughtData \<Rightarrow> rat option" where
  "revision_target t =
     (if isRevision t = Some True \<and> truthy_number (revisesThought t) then revisesThought t
      else None)"

definition branch_target :: "ThoughtData \<Rightarrow> (rat \<times> jstring) option" where
  "branch_target t =
     (case (branchFromThought t, branchId t) of
        (Some b, Some i) \<Rightarrow>
          if truthy_number (Some b) \<and> truthy_string (Some i) then Some (b, i) else None
      | _ \<Rightarrow> None)"

definition prefix_context :: "engine \<Rightarrow> ThoughtData \<Rightarrow> jstring \<times> jstring" where
  "prefix_context env t =
     (case revision_target t of
        Some r \<Rightarrow>
          (chalk env Yellow lit_revision,
           ascii '' (revising thought '' @ number_string env r @ ascii '')'')
      | None \<Rightarrow>
          (case branch_target t of
             Some (b, i) \<Rightarrow>
               (chalk env Green lit_branch,
                ascii '' (from thought '' @ number_string env b @ ascii '', ID: '' @ i @ ascii '')'')
           | None \<Rightarrow> (chalk env Blue lit_thought, [])))"

definition header :: "engine \<Rightarrow> ThoughtData \<Rightarrow> jstring" where
  "header env t =
     fst (prefix_context env t) @ ascii '' '' @ number_string env (thoughtNumber t)
       @ ascii ''/'' @ number_string env (totalThoughts t) @ snd (prefix_context env t)"

definition confidenceLine :: "engine \<Rightarrow> ThoughtData \<Rightarrow> jstring" where
  "confidenceLine env t =
     (case confidence_score t of
        Some q \<Rightarrow> ascii ''Confidence: '' @ chalk env Cyan (toFixed2 env q)
      | None \<Rightarrow> [])"

definition knowledge_line :: "engine \<Rightarrow> KnowledgeAssessment \<Rightarrow> jstring" where
  "knowledge_line env ka =
     ascii ''  - '' @ chalk env Yellow (entity ka) @ ascii '': '' @ chalk env Magenta (status ka)"

definition knowledgeLines :: "engine \<Rightarrow> ThoughtData \<Rightarrow> jstring" where
  "knowledgeLines env t =
     (case knowledge_assessment t of
        Some (k # ks) \<Rightarrow>
          ascii ''Knowledge Assessment:'' @ newline # join_lines (map (knowledge_line env) (k # ks))
      | _ \<Rightarrow> [])"

definition coreContentLines :: "engine \<Rightarrow> ThoughtData \<Rightarrow> jstring list" where
  "coreContentLines env t =
     filter (\<lambda>line. line \<noteq> []) [thought t, confidenceLine env t, knowledgeLines env t]"

definition allLinesForWidth :: "engine \<Rightarrow> ThoughtData \<Rightarrow> jstring list" where
  "allLinesForWidth env t = header env t # concat (map split_lines (coreContentLines env t))"

text \<open>\<open>Math.max(0, ...allLinesForWidth.map(l => stripAnsi(l).length))\<close>\<close>

definition maxWidth :: "engine \<Rightarrow> ThoughtData \<Rightarrow> nat" where
  "maxWidth env t = foldr max (map (\<lambda>l. length (stripAnsi l)) (allLinesForWidth env t)) 0"

definition row :: "nat \<Rightarrow> jstring \<Rightarrow> jstring" where
  "row w line = newline # box_vertical @ ascii '' '' @ padEnd line w @ ascii '' '' @ box_vertical"

text \<open>
  The \<open>forEach\<close> over the content blocks; \<open>prev\<close> is the block before the current one,
  \<open>None\<close> at index 0.
\<close>

fun content_rows :: "nat \<Rightarrow> jstring \<Rightarrow> jstring option \<Rightarrow> jstring list \<Rightarrow> jstring" where
  "content_rows w sep prev [] = []"
| "content_rows w sep prev (line # rest) =
     (if prev \<noteq> None \<and> line \<noteq> [] \<and> prev \<noteq> Some [] then newline # sep else [])
     @ concat (map (row w) (split_lines line))
     @ content_rows w sep (Some line) rest"

definition formatThought :: "engine \<Rightarrow> ThoughtData \<Rightarrow> jstring" where
  "formatThought env t =
     (let w = maxWidth env t;
          border = repeat box_horizontal (w + 2);
          separator = box_tee_left @ repeat box_dot (w + 2) @ box_tee_right;
          blocks = coreContentLines env t
      in newline # box_top_left @ border @ box_top_right @ row w (header env t)
         @ (if blocks \<noteq> []
            then newline # box_tee_left @ border @ box_tee_right
                 @ content_rows w separator None blocks
            else [])
         @ newline # box_bottom_left @ border @ box_bottom_right)"

section \<open>processThought\<close>

text \<open>
  \<open>branches\<close> is a plain object used as a dictionary: reading \<open>branches[id]\<close> finds an
  own property, or else a property that every plain object inherits from
  \<open>Object.prototype\<close> (a function, or the prototype itself for \<open>__proto__\<close>: truthy, and
  without a \<open>push\<close> method), or else \<open>undefined\<close>. The own properties are kept in the
  order of their creation.
\<close>

definition object_prototype_keys :: "jstring list" where
  "object_prototype_keys =
     map ascii [''constructor'', ''hasOwnProperty'', ''isPrototypeOf'', ''propertyIsEnumerable'',
       ''toLocaleString'', ''toString'', ''valueOf'', ''__proto__'', ''__defineGetter__'',
       ''__defineSetter__'', ''__lookupGetter__'', ''__lookupSetter__'']"

datatype 'a property = Own 'a | Inherited | Missing

type_synonym branch_table = "(jstring \<times> ThoughtData list) list"

definition read_branch :: "branch_table \<Rightarrow> jstring \<Rightarrow> ThoughtData list property" where
  "read_branch bs k =
     (case map_of bs k of
        Some xs \<Rightarrow> Own xs
      | None \<Rightarrow> if k \<in> set object_prototype_keys then Inherited else Missing)"

text \<open>\<open>branches[id].push(t)\<close> on an own property.\<close>

definition push_branch :: "branch_table \<Rightarrow> jstring \<Rightarrow> ThoughtData \<Rightarrow> branch_table" where
  "push_branch bs k t = map (\<lambda>(k', xs). if k' = k then (k', xs @ [t]) else (k', xs)) bs"

text \<open>
  \<open>Object.keys\<close>: the own keys that are array indices (canonical numerals up to
  \<open>2^32 - 2\<close>) in ascending order, then the other keys in the order of their creation.
\<close>

definition index_value :: "jstring \<Rightarrow> nat" where
  "index_value k = foldl (\<lambda>n c. 10 * n + (unat c - 48)) 0 k"

definition is_array_index :: "jstring \<Rightarrow> bool" where
  "is_array_index k =
     (k \<noteq> [] \<and> list_all is_digit k \<and> (length k = 1 \<or> hd k \<noteq> of_char CHR ''0'')
      \<and> index_value k < 2 ^ 32 - 1)"

definition object_keys :: "branch_table \<Rightarrow> jstring list" where
  "object_keys bs =
     sort_key index_value (filter is_array_index (map fst bs))
     @ filter (\<lambda>k. \<not> is_array_index k) (map fst bs)"

record state =
  thoughtHistory :: "ThoughtData list"
  branches :: branch_table

definition initial_state :: state where
  "initial_state = \<lparr>thoughtHistory = [], branches = []\<rparr>"

text \<open>
  The response is modelled by the payload that the source serialises with
  \<open>JSON.stringify\<close>: the fields of a success, or the exception whose message is
  reported (with \<open>isError\<close>).
\<close>

record payload =
  thought_number_processed :: rat
  current_total_thoughts :: rat
  next_thought_needed :: bool
  active_branches :: "jstring list"
  total_history_length :: nat

datatype response = Success payload | Failure exn

text \<open>
  Step 4 of \<open>processThought\<close>. Calling \<open>push\<close> on an inherited property throws a
  \<open>TypeError\<close>; nothing has been written to \<open>branches\<close> by then.
\<close>

definition handle_branching :: "ThoughtData \<Rightarrow> branch_table \<Rightarrow> exn + (event list \<times> branch_table)" where
  "handle_branching t bs =
     (case branch_target t of
        None \<Rightarrow> Inr ([], bs)
      | Some (b, i) \<Rightarrow>
          (case read_branch bs i of
             Missing \<Rightarrow> Inr ([StartingNewBranch i b], push_branch (bs @ [(i, [])]) i t)
           | Own xs \<Rightarrow> Inr ([], push_branch bs i t)
           | Inherited \<Rightarrow> Inl TypeError))"

text \<open>Step 2 of \<open>processThought\<close>: the total is raised to the number of the thought.\<close>

definition adjust_total :: "ThoughtData \<Rightarrow> event list \<times> ThoughtData" where
  "adjust_total t =
     (if thoughtNumber t > totalThoughts t
      then ([WarnAdjustingTotal (thoughtNumber t) (totalThoughts t)],
            t\<lparr>totalThoughts := thoughtNumber t\<rparr>)
      else ([], t))"

text \<open>
  The whole call. It gives the response, the lines written to the console and the new
  state; an exception thrown anywhere in the \<open>try\<close> block ends in the \<open>catch\<close> branch
  with the state as it is at that moment. The thought stored in the history and the one
  stored in a branch are one object, which nothing changes after it is stored.
\<close>

definition processThought :: "engine \<Rightarrow> jsval \<Rightarrow> state \<Rightarrow> response \<times> event list \<times> state" where
  "processThought env input st =
     (case validateThoughtData input of
        Inl e \<Rightarrow> (Failure e, [ErrorProcessing e], st)
      | Inr (ws, validated) \<Rightarrow>
          (let (adj, t) = adjust_total validated;
               st1 = st\<lparr>thoughtHistory := thoughtHistory st @ [t]\<rparr>
           in (case handle_branching t (branches st1) of
                 Inl e \<Rightarrow> (Failure e, ws @ adj @ [ErrorProcessing e], st1)
               | Inr (started, bs) \<Rightarrow>
                   (let st2 = st1\<lparr>branches := bs\<rparr>
                    in (Success \<lparr>thought_number_processed = thoughtNumber t,
                                 current_total_thoughts = totalThoughts t,
                                 next_thought_needed = nextThoughtNeeded t,
                                 active_branches = object_keys (branches st2),
                                 total_history_length = length (thoughtHistory st2)\<rparr>,
                        ws @ adj @ started @ [Formatted (formatThought env t)],
                        st2)))))"

text \<open>A sequence of calls on one instance of the tool.\<close>

fun run :: "engine \<Rightarrow> jsval list \<Rightarrow> state \<Rightarrow> state" where
  "run env [] st = st"
| "run env (input # inputs) st = run env inputs (snd (snd (processThought env input st)))"

text \<open>
  An engine for concrete runs: \<open>chalk\<close> at colour level 0, where every colour function
  returns its argument (the level it has when the stream is no terminal). The runs below
  print small integers only, so the conversion of other numbers is a placeholder.
\<close>

definition plain_engine :: engine where
  "plain_engine = \<lparr>chalk = (\<lambda>c s. s), number_string_other = (\<lambda>q. ascii ''?'')\<rparr>"

section \<open>Concrete inputs\<close>

definition required_fields :: "(jstring \<times> jsval) list" where
  "required_fields =
     [(ascii ''thought'', JStr (ascii ''x'')),
      (ascii ''thoughtNumber'', JNum 1),
      (ascii ''totalThoughts'', JNum 1),
      (ascii ''nextThoughtNeeded'', JBool False)]"

text \<open>A branch identifier that names a property of \<open>Object.prototype\<close>.\<close>

definition inherited_name_input :: jsval where
  "inherited_name_input =
     JObj (required_fields
           @ [(ascii ''branchFromThought'', JNum 1),
              (ascii ''branchId'', JStr (ascii ''constructor''))])"

definition five_of_three :: jsval where
  "five_of_three =
     JObj [(ascii ''thought'', JStr (ascii ''x'')),
           (ascii ''thoughtNumber'', JNum 5),
           (ascii ''totalThoughts'', JNum 3),
           (ascii ''nextThoughtNeeded'', JBool True)]"

text \<open>Thoughts that branch from thought 2, with the given \<open>branchId\<close>.\<close>

definition branch_input :: "jsval \<Rightarrow> jsval" where
  "branch_input bId =
     JObj (required_fields @ [(ascii ''branchFromThought'', JNum 2), (ascii ''branchId'', bId)])"

text \<open>An input with every field of the tool.\<close>

definition full_input :: jsval where
  "full_input =
     JObj [(ascii ''thought'', JStr (ascii ''x'')),
           (ascii ''thoughtNumber'', JNum 2),
           (ascii ''totalThoughts'', JNum 4),
           (ascii ''nextThoughtNeeded'', JBool True),
           (ascii ''confidence_score'', JNum (7 / 10)),
           (ascii ''knowledge_assessment'',
              JArr [JObj [(ascii ''entity'', JStr (ascii ''Texas'')),
                          (ascii ''status'', JStr (ascii ''known''))]]),
           (ascii ''isRevision'', JBool True),
           (ascii ''revisesThought'', JNum 1),
           (ascii ''branchFromThought'', JNum 1),
           (ascii ''branchId'', JStr (ascii ''A'')),
           (ascii ''needsMoreThoughts'', JBool True)]"


text \<open>An element of the input array and the record made from it agree on both fields.\<close>

definition same_item :: "jsval \<Rightarrow> KnowledgeAssessment \<Rightarrow> bool" where
  "same_item item k =
     (getprop item (ascii ''entity'') = JStr (entity k)
      \<and> getprop item (ascii ''status'') = JStr (status k))"

text \<open>The required fields and one more field.\<close>

definition with_field :: "string \<Rightarrow> jsval \<Rightarrow> jsval" where
  "with_field name x = JObj (required_fields @ [(ascii name, x)])"

text \<open>Two assessments, the second with an empty \<open>entity\<close>.\<close>

definition texas_items :: jsval where
  "texas_items =
     JArr [JObj [(ascii ''entity'', JStr (ascii ''Texas'')), (ascii ''status'', JStr (ascii ''known''))],
           JObj [(ascii ''entity'', JStr []), (ascii ''status'', JStr (ascii ''known''))]]"

text \<open>
  In the words of the claim about \<open>knowledge_assessment\<close>: an element is well formed
  when it is an object with a non-empty string \<open>entity\<close> and a \<open>status\<close> among
  \<open>known\<close>, \<open>unknown\<close>, \<open>uncertain\<close>. It is compared with \<open>check_item\<close> below.
\<close>

fun nonempty_string :: "jsval \<Rightarrow> bool" where
  "nonempty_string (JStr s) = (s \<noteq> [])"
| "nonempty_string _ = False"

definition well_formed_item :: "jsval \<Rightarrow> bool" where
  "well_formed_item item =
     (case item of
        JObj kvs \<Rightarrow>
          nonempty_string (getprop item (ascii ''entity''))
          \<and> getprop item (ascii ''status'')
              \<in> set (map JStr [ascii ''known'', ascii ''unknown'', ascii ''uncertain''])
      | _ \<Rightarrow> False)"

text \<open>The thought that \<open>required_fields\<close> alone validates to.\<close>

definition plain_thought :: ThoughtData where
  "plain_thought =
     \<lparr>thought = ascii ''x'', thoughtNumber = 1, totalThoughts = 1,
      nextThoughtNeeded = False, confidence_score = None,
      knowledge_assessment = None, isRevision = None, revisesThought = None,
      branchFromThought = None, branchId = None\<rparr>"


text \<open>A text of two lines inside a colour sequence, and the same text without the sequences.\<close>

definition coloured_thought :: jstring where
  "coloured_thought =
     0x1B # ascii ''[31ma thought in red'' @ newline # ascii ''and a second line'' @ 0x1B # ascii ''[0m''"

definition uncoloured_thought :: jstring where
  "uncoloured_thought = ascii ''a thought in red'' @ newline # ascii ''and a second line''"

section \<open>Facts about the validator and the store\<close>

subsection \<open>Reading the result of the validator\<close>

text \<open>
  The source tests \<open>thought\<close> and \<open>entity\<close> by \<open>!v || typeof v !== 'string'\<close>; the checks
  above match on the string instead, which is the same test.
\<close>

lemma nonempty_string_test:
  "(\<not> truthy v \<or> typeof v \<noteq> TString) = (\<forall>s. v = JStr s \<longrightarrow> s = [])"
  by (cases v) auto

lemma check_required_InrD:
  assumes "check_required d = Inr (th, tn, tt, ntn)"
  shows "d \<noteq> JUndefined" "d \<noteq> JNull"
    "getprop d (ascii ''thought'') = JStr th" "th \<noteq> []"
    "positive_integer (getprop d (ascii ''thoughtNumber'')) = Some tn"
    "positive_integer (getprop d (ascii ''totalThoughts'')) = Some tt"
    "getprop d (ascii ''nextThoughtNeeded'') = JBool ntn"
  using assms unfolding check_required_def
  by (auto split: if_splits jsval.splits option.splits)

lemma validate_InrD:
  assumes "validateThoughtData d = Inr (ws, v)"
  shows "check_required d = Inr (thought v, thoughtNumber v, totalThoughts v, nextThoughtNeeded v)"
    "check_confidence (getprop d (ascii ''confidence_score'')) = Inr (confidence_score v)"
    "check_knowledge (getprop d (ascii ''knowledge_assessment'')) = Inr (knowledge_assessment v)"
    "isRevision v = optional_boolean (getprop d (ascii ''isRevision''))"
    "revisesThought v = positive_integer (getprop d (ascii ''revisesThought''))"
    "branchFromThought v = positive_integer (getprop d (ascii ''branchFromThought''))"
    "branchId v = optional_string (getprop d (ascii ''branchId''))"
    "ws = warnings (isRevision v) (revisesThought v) (branchFromThought v) (branchId v)
           (optional_boolean (getprop d (ascii ''needsMoreThoughts'')))"
  using assms unfolding validateThoughtData_def
  by (auto simp: Let_def split: sum.splits prod.splits)

text \<open>A call whose input fails validation stores nothing.\<close>

lemma process_invalid:
  "validateThoughtData d = Inl e \<Longrightarrow>
     processThought env d st = (Failure e, [ErrorProcessing e], st)"
  by (simp add: processThought_def)

text \<open>A call whose input passes validation appends the adjusted thought to the history.\<close>

lemma process_valid_history:
  assumes "validateThoughtData d = Inr (ws, v)"
  shows "thoughtHistory (snd (snd (processThought env d st)))
         = thoughtHistory st @ [snd (adjust_total v)]"
  using assms
  by (simp add: processThought_def Let_def split: sum.splits prod.splits)

lemma inherited_name_input_valid:
  "validateThoughtData inherited_name_input =
     Inr ([], \<lparr>thought = ascii ''x'', thoughtNumber = 1, totalThoughts = 1,
               nextThoughtNeeded = False, confidence_score = None,
               knowledge_assessment = None, isRevision = None, revisesThought = None,
               branchFromThought = Some 1, branchId = Some (ascii ''constructor'')\<rparr>)"
  by (simp add: inherited_name_input_def required_fields_def validateThoughtData_def
      check_required_def warnings_def ascii_def)

subsection \<open>The adjustment of the total\<close>

lemma adjust_total_eq:
  "snd (adjust_total v) = v\<lparr>totalThoughts := max (thoughtNumber v) (totalThoughts v)\<rparr>"
  by (simp add: adjust_total_def max_def)

lemma adjust_total_ordered:
  "thoughtNumber (snd (adjust_total v)) \<le> totalThoughts (snd (adjust_total v))"
  by (simp add: adjust_total_def)

lemma process_keeps_order:
  assumes "\<forall>t \<in> set (thoughtHistory st). thoughtNumber t \<le> totalThoughts t"
  shows "\<forall>t \<in> set (thoughtHistory (snd (snd (processThought env d st)))).
           thoughtNumber t \<le> totalThoughts t"
proof (cases "validateThoughtData d")
  case (Inl e)
  then show ?thesis using assms by (simp add: process_invalid)
next
  case (Inr r)
  then obtain ws v where "validateThoughtData d = Inr (ws, v)" by (cases r) auto
  from process_valid_history [OF this] show ?thesis
    using assms adjust_total_ordered by auto
qed

lemma run_keeps_order:
  "\<forall>t \<in> set (thoughtHistory st). thoughtNumber t \<le> totalThoughts t \<Longrightarrow>
   \<forall>t \<in> set (thoughtHistory (run env inputs st)). thoughtNumber t \<le> totalThoughts t"
proof (induction inputs arbitrary: st)
  case Nil
  then show ?case by simp
next
  case (Cons d inputs)
  from Cons.prems have "\<forall>t \<in> set (thoughtHistory (snd (snd (processThought env d st)))).
           thoughtNumber t \<le> totalThoughts t"
    by (rule process_keeps_order)
  from Cons.IH [OF this] show ?case by simp
qed

lemma warnings_no_adjust: "WarnAdjustingTotal a b \<notin> set (warnings r1 r2 r3 r4 r5)"
  by (simp add: warnings_def)

lemma handle_branching_no_adjust:
  "handle_branching t bs = Inr (started, bs') \<Longrightarrow> WarnAdjustingTotal a b \<notin> set started"
  by (auto simp: handle_branching_def split: option.splits property.splits prod.splits)

lemma process_valid_warning:
  assumes "validateThoughtData d = Inr (ws, v)"
  shows "(WarnAdjustingTotal (thoughtNumber v) (totalThoughts v)
            \<in> set (fst (snd (processThought env d st))))
         = (thoughtNumber v > totalThoughts v)"
proof -
  have ws: "WarnAdjustingTotal a b \<notin> set ws" for a b
    using validate_InrD(8) [OF assms] warnings_no_adjust by simp
  show ?thesis
    using assms ws handle_branching_no_adjust
    by (auto simp: processThought_def Let_def adjust_total_def split: sum.splits prod.splits)
qed

lemma process_valid_total:
  assumes "validateThoughtData d = Inr (ws, v)"
    and "fst (processThought env d st) = Success p"
  shows "current_total_thoughts p = max (thoughtNumber v) (totalThoughts v)"
  using assms
  by (auto simp: processThought_def Let_def adjust_total_def max_def split: sum.splits prod.splits if_splits)

lemma five_of_three_valid:
  "validateThoughtData five_of_three =
     Inr ([], \<lparr>thought = ascii ''x'', thoughtNumber = 5, totalThoughts = 3,
               nextThoughtNeeded = True, confidence_score = None,
               knowledge_assessment = None, isRevision = None, revisesThought = None,
               branchFromThought = None, branchId = None\<rparr>)"
  by (simp add: five_of_three_def validateThoughtData_def check_required_def warnings_def ascii_def)

lemma five_of_three_success:
  "\<exists>p. fst (processThought plain_engine five_of_three initial_state) = Success p"
  by (simp add: processThought_def five_of_three_valid adjust_total_def handle_branching_def
      branch_target_def Let_def)

subsection \<open>The optional fields\<close>

lemma getprop_setprop:
  "getprop (setprop (JObj kvs) k x) k' = (if k' = k then x else getprop (JObj kvs) k')"
  by simp

lemma validate_object: "validateThoughtData d = Inr r \<Longrightarrow> \<exists>kvs. d = JObj kvs"
  by (cases d) (auto simp: validateThoughtData_def check_required_def split: sum.splits)

lemma validate_failure_ignores_branchId:
  "(validateThoughtData (setprop d (ascii ''branchId'') x) = Inl e)
   = (validateThoughtData d = Inl e)"
proof (cases d)
  case (JObj kvs)
  show ?thesis
    unfolding JObj validateThoughtData_def check_required_def getprop_setprop
    by (auto simp: ascii_def Let_def split: sum.splits prod.splits)
qed simp_all

lemma optional_string_iff: "(optional_string x = Some s) = (x = JStr s)"
  by (cases x) auto

lemma optional_string_None: "(optional_string x = None) = (\<forall>s. x \<noteq> JStr s)"
  by (cases x) auto

lemma branch_input_valid:
  "validateThoughtData (branch_input bId) =
     Inr ([WarnBranchIdMissing. optional_string bId = None],
          \<lparr>thought = ascii ''x'', thoughtNumber = 1, totalThoughts = 1,
            nextThoughtNeeded = False, confidence_score = None,
            knowledge_assessment = None, isRevision = None, revisesThought = None,
            branchFromThought = Some 2, branchId = optional_string bId\<rparr>)"
  by (cases "optional_string bId")
     (simp_all add: branch_input_def required_fields_def validateThoughtData_def
        check_required_def warnings_def ascii_def Let_def)

lemma check_item_InrD:
  "check_item i item = Inr k \<Longrightarrow> same_item item k"
  by (auto simp: check_item_def same_item_def split: if_splits jsval.splits)

lemma map_items_InrD:
  "map_items i items = Inr ks \<Longrightarrow> list_all2 same_item items ks"
proof (induction items arbitrary: i ks)
  case Nil
  then show ?case by simp
next
  case (Cons item items)
  then show ?case
    by (auto split: sum.splits dest: check_item_InrD)
qed

lemma check_confidence_InrD:
  "check_confidence x = Inr c \<Longrightarrow> x = JNum q \<Longrightarrow> c = Some q"
  by (auto split: if_splits)

lemma check_knowledge_InrD:
  "check_knowledge x = Inr k \<Longrightarrow> x = JArr items \<Longrightarrow>
     \<exists>ks. k = Some ks \<and> list_all2 same_item items ks"
  by (auto split: sum.splits dest: map_items_InrD)

lemma optional_boolean_iff: "(optional_boolean x = Some b) = (x = JBool b)"
  by (cases x) auto

lemma positive_integer_iff:
  "(positive_integer x = Some q) = (x = JNum q \<and> of_int \<lfloor>q\<rfloor> = q \<and> 1 \<le> q)"
  by (cases x) auto

lemma validate_ignores_deprecated:
  assumes "validateThoughtData d = Inr (ws, v)"
  shows "\<exists>ws'. validateThoughtData (setprop d (ascii ''needsMoreThoughts'') x) = Inr (ws', v)"
proof -
  from validate_object [OF assms] obtain kvs where d: "d = JObj kvs" by blast
  show ?thesis
    using assms unfolding d validateThoughtData_def check_required_def getprop_setprop
    by (auto simp: ascii_def Let_def split: sum.splits prod.splits)
qed

lemma full_input_valid:
  "validateThoughtData full_input =
     Inr ([WarnDeprecated],
          \<lparr>thought = ascii ''x'', thoughtNumber = 2, totalThoughts = 4,
            nextThoughtNeeded = True, confidence_score = Some (7 / 10),
            knowledge_assessment = Some [\<lparr>entity = ascii ''Texas'', status = ascii ''known''\<rparr>],
            isRevision = Some True, revisesThought = Some 1,
            branchFromThought = Some 1, branchId = Some (ascii ''A'')\<rparr>)"
  by (auto simp: full_input_def validateThoughtData_def check_required_def check_item_def
      warnings_def ascii_def Let_def)

subsection \<open>Calls that touch no branch\<close>




lemma adjust_total_fields:
  "branchId (snd (adjust_total v)) = branchId v"
  "branchFromThought (snd (adjust_total v)) = branchFromThought v"
  "isRevision (snd (adjust_total v)) = isRevision v"
  "revisesThought (snd (adjust_total v)) = revisesThought v"
  "thoughtNumber (snd (adjust_total v)) = thoughtNumber v"
  "nextThoughtNeeded (snd (adjust_total v)) = nextThoughtNeeded v"
  by (simp_all add: adjust_total_def)


lemma process_without_branch:
  assumes ok: "validateThoughtData d = Inr (ws, v)"
    and nb: "branch_target (snd (adjust_total v)) = None"
  shows "processThought env d st =
     (Success \<lparr>thought_number_processed = thoughtNumber v,
               current_total_thoughts = max (thoughtNumber v) (totalThoughts v),
               next_thought_needed = nextThoughtNeeded v,
               active_branches = object_keys (branches st),
               total_history_length = Suc (length (thoughtHistory st))\<rparr>,
      ws @ fst (adjust_total v) @ [Formatted (formatThought env (snd (adjust_total v)))],
      st\<lparr>thoughtHistory := thoughtHistory st @ [snd (adjust_total v)]\<rparr>)"
proof -
  obtain adj t where a: "adjust_total v = (adj, t)" by (cases "adjust_total v")
  from a have t: "t = v\<lparr>totalThoughts := max (thoughtNumber v) (totalThoughts v)\<rparr>"
    using adjust_total_eq [of v] by simp
  from nb a have "branch_target t = None" by simp
  with ok a show ?thesis
    by (simp add: processThought_def handle_branching_def Let_def) (simp add: t)
qed


subsection \<open>The checks of \<open>confidence_score\<close> and \<open>knowledge_assessment\<close>\<close>

lemma messages_differ:
  "msg_knowledge_array \<noteq> msg_confidence"
  "msg_item_object i \<noteq> msg_confidence"
  "msg_item_entity i \<noteq> msg_confidence"
  "msg_item_status i \<noteq> msg_confidence"
  by (simp_all add: msg_knowledge_array_def msg_confidence_def msg_item_object_def
      msg_item_entity_def msg_item_status_def)

lemma check_item_cases:
  "(\<exists>k. check_item i item = Inr k)
   \<or> check_item i item = Inl (Error (msg_item_object i))
   \<or> check_item i item = Inl (Error (msg_item_entity i))
   \<or> check_item i item = Inl (Error (msg_item_status i))"
  by (cases "getprop item (ascii ''entity'')"; cases "getprop item (ascii ''status'')")
     (simp_all add: check_item_def)

lemma check_item_well_formed:
  "(\<exists>k. check_item i item = Inr k) = well_formed_item item"
proof (cases item)
  case (JObj kvs)
  show ?thesis
    unfolding JObj
    by (cases "getprop (JObj kvs) (ascii ''entity'')";
        cases "getprop (JObj kvs) (ascii ''status'')")
       (auto simp: check_item_def well_formed_item_def)
qed (simp_all add: check_item_def well_formed_item_def)

lemma map_items_not_confidence: "map_items i items \<noteq> Inl (Error msg_confidence)"
proof (induction items arbitrary: i)
  case Nil
  then show ?case by simp
next
  case (Cons item items)
  show ?case
    using check_item_cases [of i item] Cons.IH [of "Suc i"] messages_differ messages_differ [symmetric]
    by (cases "check_item i item"; cases "map_items (Suc i) items") auto
qed

lemma check_knowledge_not_confidence: "check_knowledge x \<noteq> Inl (Error msg_confidence)"
proof (cases x)
  case (JArr items)
  show ?thesis
    using map_items_not_confidence [of 0 items]
    by (cases "map_items 0 items") (simp_all add: JArr)
qed (simp_all add: messages_differ)

lemma check_confidence_ok:
  "(\<exists>c. check_confidence x = Inr c) = (x = JUndefined \<or> (\<exists>q. x = JNum q \<and> 0 \<le> q \<and> q \<le> 1))"
  by (cases x) auto

lemma check_confidence_error:
  "check_confidence x = Inl e \<Longrightarrow> e = Error msg_confidence"
  by (cases x) (auto split: if_splits)

lemma with_field_required:
  "check_required (with_field ''confidence_score'' x) = Inr (ascii ''x'', 1, 1, False)"
  "check_required (with_field ''confidenceScore'' x) = Inr (ascii ''x'', 1, 1, False)"
  "check_required (with_field ''knowledge_assessment'' x) = Inr (ascii ''x'', 1, 1, False)"
  "check_required (with_field ''knowledgeAssessment'' x) = Inr (ascii ''x'', 1, 1, False)"
  by (simp_all add: with_field_def required_fields_def check_required_def ascii_def)

lemma with_field_get:
  "getprop (with_field ''confidence_score'' x) (ascii ''confidence_score'') = x"
  "getprop (with_field ''confidence_score'' x) (ascii ''knowledge_assessment'') = JUndefined"
  "getprop (with_field ''confidenceScore'' x) (ascii ''confidenceScore'') = x"
  "getprop (with_field ''confidenceScore'' x) (ascii ''confidence_score'') = JUndefined"
  "getprop (with_field ''confidenceScore'' x) (ascii ''knowledge_assessment'') = JUndefined"
  "getprop (with_field ''knowledge_assessment'' x) (ascii ''knowledge_assessment'') = x"
  "getprop (with_field ''knowledge_assessment'' x) (ascii ''confidence_score'') = JUndefined"
  "getprop (with_field ''knowledgeAssessment'' x) (ascii ''knowledgeAssessment'') = x"
  "getprop (with_field ''knowledgeAssessment'' x) (ascii ''knowledge_assessment'') = JUndefined"
  "getprop (with_field ''knowledgeAssessment'' x) (ascii ''confidence_score'') = JUndefined"
  by (simp_all add: with_field_def required_fields_def ascii_def)

lemma unread_field_valid:
  "validateThoughtData (with_field ''confidenceScore'' x) = Inr ([], plain_thought)"
  "validateThoughtData (with_field ''knowledgeAssessment'' x) = Inr ([], plain_thought)"
  by (simp_all add: with_field_def required_fields_def validateThoughtData_def
      check_required_def warnings_def ascii_def plain_thought_def)

lemma confidence_field_valid:
  "validateThoughtData (with_field ''confidence_score'' (JNum (7 / 10)))
     = Inr ([], plain_thought\<lparr>confidence_score := Some (7 / 10)\<rparr>)"
  by (simp add: with_field_def required_fields_def validateThoughtData_def
      check_required_def warnings_def ascii_def plain_thought_def)

lemma process_plain_success:
  assumes "validateThoughtData d = Inr (ws, v)" and "branchId v = None"
  shows "\<exists>p printed st'. processThought env d st = (Success p, printed, st')"
proof -
  have "branch_target (snd (adjust_total v)) = None"
    using assms(2) by (simp add: branch_target_def adjust_total_fields split: option.splits)
  from process_without_branch [OF assms(1) this] show ?thesis by blast
qed

lemma map_items_all_well_formed:
  "list_all well_formed_item items \<Longrightarrow> \<exists>ks. map_items i items = Inr ks"
proof (induction items arbitrary: i)
  case Nil
  then show ?case by simp
next
  case (Cons item items)
  from Cons.prems have "well_formed_item item" by simp
  with check_item_well_formed [of i item] obtain k where k: "check_item i item = Inr k" by blast
  from Cons.prems have "list_all well_formed_item items" by simp
  from Cons.IH [OF this, of "Suc i"] obtain ks where "map_items (Suc i) items = Inr ks" by blast
  with k show ?case by simp
qed

lemma check_item_not_well_formed:
  assumes "\<not> well_formed_item item"
  shows "\<exists>e. check_item i item = Inl e
           \<and> e \<in> {Error (msg_item_object i), Error (msg_item_entity i), Error (msg_item_status i)}"
  using check_item_cases [of i item] check_item_well_formed [of i item] assms by auto

lemma map_items_first_bad:
  assumes "j < length items" and "\<forall>j' < j. well_formed_item (items ! j')"
    and "\<not> well_formed_item (items ! j)"
  shows "\<exists>e. check_item (i + j) (items ! j) = Inl e \<and> map_items i items = Inl e"
  using assms
proof (induction items arbitrary: i j)
  case Nil
  then show ?case by simp
next
  case (Cons item items)
  show ?case
  proof (cases j)
    case 0
    with Cons.prems(3) have "\<not> well_formed_item item" by simp
    from check_item_not_well_formed [OF this, of i] obtain e where "check_item i item = Inl e"
      by blast
    with 0 show ?thesis by simp
  next
    case (Suc j')
    from Cons.prems(2) Suc have "well_formed_item item" by auto
    with check_item_well_formed [of i item] obtain k where k: "check_item i item = Inr k"
      by blast
    from Cons.prems Suc have "j' < length items" "\<forall>n < j'. well_formed_item (items ! n)"
      "\<not> well_formed_item (items ! j')" by auto
    from Cons.IH [OF this, of "Suc i"] obtain e where
      "check_item (Suc i + j') (items ! j') = Inl e" "map_items (Suc i) items = Inl e" by blast
    with k Suc show ?thesis by simp
  qed
qed

subsection \<open>The table of branches\<close>










subsection \<open>The scanner of \<open>stripAnsi\<close>\<close>

text \<open>What remains of a match is a suffix of the text, and a line break ends every match.\<close>

lemma greedy_star_suffix: "r \<in> set (greedy_star P s) \<Longrightarrow> suffix r s"
  by (induction s) (auto split: if_splits intro: suffix_ConsI)

lemma greedy_upto_suffix: "r \<in> set (greedy_upto P n s) \<Longrightarrow> suffix r s"
  by (induction P n s rule: greedy_upto.induct) (auto split: if_splits intro: suffix_ConsI)

lemma digits_1_4_suffix: "r \<in> set (digits_1_4 s) \<Longrightarrow> suffix r s"
  by (cases s) (auto split: if_splits dest: greedy_upto_suffix intro: suffix_ConsI)

lemma semicolon_groups_suffix: "r \<in> set (semicolon_groups s) \<Longrightarrow> suffix r s"
proof (induction s arbitrary: r rule: semicolon_groups.induct)
  case 1
  then show ?case by simp
next
  case (2 c cs)
  show ?case
  proof (cases "c = of_char CHR '';''")
    case True
    with "2.prems" consider "r = c # cs"
      | u where "u \<in> set (greedy_upto is_digit 4 cs)" "r \<in> set (semicolon_groups u)"
      by auto
    then show ?thesis
    proof cases
      case 1
      then show ?thesis by simp
    next
      case 2
      from "2.IH" [OF True 2(1) 2(2)] have "suffix r u" .
      moreover from greedy_upto_suffix [OF 2(1)] have "suffix u cs" .
      ultimately have "suffix r cs" by (rule suffix_order.trans)
      then show ?thesis by (rule suffix_ConsI)
    qed
  next
    case False
    with "2.prems" show ?thesis by simp
  qed
qed

lemma parameters_suffix:
  assumes "r \<in> set (parameters s)"
  shows "suffix r s"
proof (cases "r = s")
  case True
  then show ?thesis by simp
next
  case False
  with assms obtain u where "u \<in> set (digits_1_4 s)" "r \<in> set (semicolon_groups u)"
    by (auto simp: parameters_def)
  then have "suffix u s" "suffix r u"
    by (auto dest: digits_1_4_suffix semicolon_groups_suffix)
  then show ?thesis using suffix_order.trans by blast
qed

lemma final_byte_suffix: "r \<in> set (final_byte s) \<Longrightarrow> suffix r s"
  by (cases s) (auto split: if_splits intro: suffix_ConsI)

lemma sequence_tail_suffix:
  assumes "r \<in> set (sequence_tail s)"
  shows "suffix r s"
proof -
  from assms obtain u w where "u \<in> set (greedy_star is_intro s)" "w \<in> set (parameters u)"
    "r \<in> set (final_byte w)"
    by (auto simp: sequence_tail_def)
  then have "suffix u s" "suffix w u" "suffix r w"
    by (auto dest: greedy_star_suffix parameters_suffix final_byte_suffix)
  then show ?thesis using suffix_order.trans by blast
qed

lemma ansi_match_suffix: "r \<in> set (ansi_match (c # cs)) \<Longrightarrow> suffix r cs"
  by (auto split: if_splits dest: sequence_tail_suffix)

lemma drop_suffix: "suffix r cs \<Longrightarrow> drop (length cs - length r) cs = r"
  by (auto simp: suffix_def)

lemma strip_scan_drop: "strip_scan k s = strip_scan 0 (drop k s)"
proof (induction s arbitrary: k)
  case Nil
  then show ?case by simp
next
  case (Cons c cs)
  show ?case
  proof (cases k)
    case 0
    then show ?thesis by simp
  next
    case (Suc k')
    with Cons.IH [of k'] show ?thesis by simp
  qed
qed

lemma stripAnsi_Nil: "stripAnsi [] = []"
  by (simp add: stripAnsi_def)

lemma stripAnsi_Cons:
  "stripAnsi (c # cs)
     = (case ansi_match (c # cs) of [] \<Rightarrow> c # stripAnsi cs | r # _ \<Rightarrow> stripAnsi r)"
proof (cases "ansi_match (c # cs)")
  case Nil
  then show ?thesis by (simp add: stripAnsi_def)
next
  case (Cons r rs)
  then have "suffix r cs" using ansi_match_suffix [of r c cs] by simp
  then have "drop (length cs - length r) cs = r" by (rule drop_suffix)
  with Cons strip_scan_drop [of "length cs - length r" cs] show ?thesis
    by (simp add: stripAnsi_def)
qed

lemma newline_classes:
  "\<not> is_digit newline" "\<not> is_intro newline" "\<not> is_final newline"
  "newline \<noteq> of_char CHR '';''" "newline \<noteq> 0x1B" "newline \<noteq> 0x9B"
  by (simp_all add: newline_def is_digit_def is_intro_def is_final_def between_def ascii_def)

lemma greedy_star_newline:
  "\<not> P newline \<Longrightarrow>
   greedy_star P (x @ newline # y) = map (\<lambda>r. r @ newline # y) (greedy_star P x)"
  by (induction x) auto

lemma greedy_upto_newline:
  "\<not> P newline \<Longrightarrow>
   greedy_upto P n (x @ newline # y) = map (\<lambda>r. r @ newline # y) (greedy_upto P n x)"
  by (induction P n x rule: greedy_upto.induct) auto

lemma digits_1_4_newline:
  "digits_1_4 (x @ newline # y) = map (\<lambda>r. r @ newline # y) (digits_1_4 x)"
  by (cases x) (simp_all add: newline_classes greedy_upto_newline)

lemma semicolon_groups_newline:
  "semicolon_groups (x @ newline # y) = map (\<lambda>r. r @ newline # y) (semicolon_groups x)"
proof (induction x rule: semicolon_groups.induct)
  case 1
  then show ?case by (simp add: newline_def)
next
  case (2 c cs)
  show ?case
  proof (cases "c = of_char CHR '';''")
    case True
    have "concat (map semicolon_groups (greedy_upto is_digit 4 (cs @ newline # y)))
          = concat (map (\<lambda>u. semicolon_groups (u @ newline # y)) (greedy_upto is_digit 4 cs))"
      by (simp add: greedy_upto_newline newline_classes comp_def)
    also have "\<dots> = concat (map (\<lambda>u. map (\<lambda>r. r @ newline # y) (semicolon_groups u))
                         (greedy_upto is_digit 4 cs))"
      using "2.IH" [OF True] by (auto intro!: arg_cong [of _ _ concat] map_cong)
    also have "\<dots> = map (\<lambda>r. r @ newline # y)
                       (concat (map semicolon_groups (greedy_upto is_digit 4 cs)))"
      by (simp add: map_concat comp_def)
    finally show ?thesis using True by simp
  next
    case False
    then show ?thesis by simp
  qed
qed

lemma concat_map_newline:
  assumes "\<And>u. g (u @ newline # y) = map (\<lambda>r. r @ newline # y) (g u)"
  shows "concat (map g (map (\<lambda>r. r @ newline # y) us))
         = map (\<lambda>r. r @ newline # y) (concat (map g us))"
    and "concat (map (g \<circ> (\<lambda>r. r @ newline # y)) us)
         = map (\<lambda>r. r @ newline # y) (concat (map g us))"
  by (simp_all add: assms map_concat comp_def)

lemma parameters_newline:
  "parameters (x @ newline # y) = map (\<lambda>r. r @ newline # y) (parameters x)"
  by (simp add: parameters_def digits_1_4_newline concat_map_newline semicolon_groups_newline)

lemma final_byte_newline:
  "final_byte (x @ newline # y) = map (\<lambda>r. r @ newline # y) (final_byte x)"
  by (cases x) (simp_all add: newline_classes)

lemma sequence_tail_newline:
  "sequence_tail (x @ newline # y) = map (\<lambda>r. r @ newline # y) (sequence_tail x)"
  by (simp add: sequence_tail_def greedy_star_newline newline_classes concat_map_newline
      parameters_newline final_byte_newline)

lemma ansi_match_newline:
  "ansi_match (x @ newline # y) = map (\<lambda>r. r @ newline # y) (ansi_match x)"
  by (cases x) (simp_all add: newline_classes sequence_tail_newline)

lemma stripAnsi_newline:
  "stripAnsi (x @ newline # y) = stripAnsi x @ newline # stripAnsi y"
proof (induction x rule: length_induct)
  case (1 x)
  show ?case
  proof (cases x)
    case Nil
    have "ansi_match (newline # y) = []" by (simp add: newline_classes)
    with Nil show ?thesis by (simp add: stripAnsi_Cons stripAnsi_Nil)
  next
    case (Cons c cs)
    show ?thesis
    proof (cases "ansi_match (c # cs)")
      case Nil
      then have "ansi_match ((c # cs) @ newline # y) = []"
        by (simp only: ansi_match_newline) simp
      moreover from 1 Cons have "stripAnsi (cs @ newline # y) = stripAnsi cs @ newline # stripAnsi y"
        by simp
      ultimately show ?thesis using Nil Cons by (simp add: stripAnsi_Cons)
    next
      case (Cons r rs)
      then have m: "ansi_match ((c # cs) @ newline # y) = (r @ newline # y) # map (\<lambda>r. r @ newline # y) rs"
        by (simp only: ansi_match_newline) simp
      from Cons have "suffix r cs" using ansi_match_suffix [of r c cs] by simp
      then have "length r \<le> length cs" by (rule suffix_length_le)
      with 1 \<open>x = c # cs\<close> have "stripAnsi (r @ newline # y) = stripAnsi r @ newline # stripAnsi y"
        by simp
      with m Cons \<open>x = c # cs\<close> show ?thesis by (simp add: stripAnsi_Cons)
    qed
  qed
qed

lemma set_stripAnsi: "set (stripAnsi s) \<subseteq> set s"
proof (induction s rule: length_induct)
  case (1 s)
  show ?case
  proof (cases s)
    case Nil
    then show ?thesis by (simp add: stripAnsi_Nil)
  next
    case (Cons c cs)
    show ?thesis
    proof (cases "ansi_match (c # cs)")
      case Nil
      with 1 Cons show ?thesis by (auto simp: stripAnsi_Cons)
    next
      case (Cons r rs)
      then have r: "suffix r cs" using ansi_match_suffix [of r c cs] by simp
      then have "length r \<le> length cs" by (rule suffix_length_le)
      with 1 \<open>s = c # cs\<close> have "set (stripAnsi r) \<subseteq> set r" by simp
      with set_mono_suffix [OF r] Cons \<open>s = c # cs\<close> show ?thesis
        by (auto simp: stripAnsi_Cons)
    qed
  qed
qed

lemma split_lines_plain: "newline \<notin> set s \<Longrightarrow> split_lines s = [s]"
  by (induction s) auto

lemma split_lines_newline:
  "newline \<notin> set x \<Longrightarrow> split_lines (x @ newline # y) = x # split_lines y"
  by (induction x) auto

lemma split_lines_stripAnsi: "split_lines (stripAnsi s) = map stripAnsi (split_lines s)"
proof (induction s rule: length_induct)
  case (1 s)
  show ?case
  proof (cases "newline \<in> set s")
    case False
    with set_stripAnsi [of s] have "newline \<notin> set (stripAnsi s)" by blast
    with False show ?thesis by (simp add: split_lines_plain)
  next
    case True
    then obtain x y where s: "s = x @ newline # y" "newline \<notin> set x"
      by (auto dest: split_list_first)
    from set_stripAnsi [of x] s(2) have nx: "newline \<notin> set (stripAnsi x)" by blast
    from 1 s(1) have "split_lines (stripAnsi y) = map stripAnsi (split_lines y)" by simp
    with s nx show ?thesis
      by (simp add: stripAnsi_newline split_lines_newline)
  qed
qed

subsection \<open>The width of the frame\<close>

lemma foldr_max_append:
  "foldr max (xs @ ys) (0::nat) = max (foldr max xs 0) (foldr max ys 0)"
  by (induction xs) auto

lemma foldr_max_Max: "xs \<noteq> [] \<Longrightarrow> foldr max xs (0::nat) = Max (set xs)"
proof (induction xs)
  case Nil
  then show ?case by simp
next
  case (Cons x xs)
  show ?case
  proof (cases "xs = []")
    case True
    then show ?thesis by simp
  next
    case False
    with Cons.IH show ?thesis by simp
  qed
qed

lemma thought_width:
  "foldr max (map (\<lambda>l. length (stripAnsi l)) (concat (map split_lines (filter (\<lambda>b. b \<noteq> []) [th])))) 0
     = foldr max (map length (split_lines (stripAnsi th))) 0"
proof (cases "th = []")
  case True
  then show ?thesis by (simp add: stripAnsi_Nil)
next
  case False
  have "map (\<lambda>l. length (stripAnsi l)) (split_lines th) = map length (map stripAnsi (split_lines th))"
    by simp
  with False show ?thesis by (simp add: split_lines_stripAnsi comp_def)
qed

lemma maxWidth_parts:
  "maxWidth env t
     = max (length (stripAnsi (header env t)))
         (max (foldr max (map length (split_lines (stripAnsi (thought t)))) 0)
            (foldr max (map (\<lambda>l. length (stripAnsi l))
               (concat (map split_lines
                  (filter (\<lambda>b. b \<noteq> []) [confidenceLine env t, knowledgeLines env t])))) 0))"
proof -
  have "filter (\<lambda>b. b \<noteq> []) [thought t, confidenceLine env t, knowledgeLines env t]
        = filter (\<lambda>b. b \<noteq> []) [thought t]
          @ filter (\<lambda>b. b \<noteq> []) [confidenceLine env t, knowledgeLines env t]"
    by simp
  then show ?thesis
    unfolding maxWidth_def allLinesForWidth_def coreContentLines_def
    by (simp only: map_append concat_append foldr_max_append list.map foldr.simps comp_def
        thought_width)
qed

lemma targets_thought:
  "revision_target (t\<lparr>thought := th\<rparr>) = revision_target t"
  "branch_target (t\<lparr>thought := th\<rparr>) = branch_target t"
  by (simp_all add: revision_target_def branch_target_def)

lemma prefix_context_thought:
  "prefix_context env (t\<lparr>thought := th\<rparr>) = prefix_context env t"
  unfolding prefix_context_def targets_thought by (rule refl)

lemma other_lines_thought:
  "header env (t\<lparr>thought := th\<rparr>) = header env t"
  "confidenceLine env (t\<lparr>thought := th\<rparr>) = confidenceLine env t"
  "knowledgeLines env (t\<lparr>thought := th\<rparr>) = knowledgeLines env t"
  by (simp_all add: header_def prefix_context_thought confidenceLine_def knowledgeLines_def)

lemma maxWidth_visible:
  "stripAnsi th = stripAnsi (thought t) \<Longrightarrow> maxWidth env (t\<lparr>thought := th\<rparr>) = maxWidth env t"
  by (simp add: maxWidth_parts other_lines_thought)

lemma maxWidth_Max:
  "maxWidth env t
     = Max (set (map (\<lambda>l. length (stripAnsi l))
               (header env t
                # concat (map split_lines
                    (filter (\<lambda>b. b \<noteq> [])
                       [thought t, confidenceLine env t, knowledgeLines env t])))))"
  unfolding maxWidth_def allLinesForWidth_def coreContentLines_def
  by (rule foldr_max_Max) simp

lemma formatThought_top:
  "\<exists>rest. formatThought env t
      = newline # box_top_left @ repeat box_horizontal (maxWidth env t + 2) @ box_top_right @ rest"
  by (simp add: formatThought_def Let_def)

lemma formatThought_bottom:
  "\<exists>front. formatThought env t
      = front @ newline # box_bottom_left @ repeat box_horizontal (maxWidth env t + 2)
          @ box_bottom_right"
proof -
  let ?w = "maxWidth env t"
  let ?b = "repeat box_horizontal (?w + 2)"
  let ?mid = "(if coreContentLines env t \<noteq> []
            then newline # box_tee_left @ ?b @ box_tee_right
                 @ content_rows ?w (box_tee_left @ repeat box_dot (?w + 2) @ box_tee_right) None
                     (coreContentLines env t)
            else [])"
  have "formatThought env t
        = (newline # box_top_left @ ?b @ box_top_right @ row ?w (header env t) @ ?mid)
          @ newline # box_bottom_left @ ?b @ box_bottom_right"
    by (simp add: formatThought_def Let_def)
  then show ?thesis by blast
qed

lemma formatted_only_frame:
  assumes "Formatted f \<in> set (fst (snd (processThought env d st)))"
  shows "\<exists>ws v. validateThoughtData d = Inr (ws, v)
           \<and> f = formatThought env (snd (adjust_total v))"
proof (cases "validateThoughtData d")
  case (Inl e)
  with assms show ?thesis by (simp add: process_invalid)
next
  case (Inr r)
  obtain ws v where r: "r = (ws, v)" by (cases r)
  obtain adj t where a: "adjust_total v = (adj, t)" by (cases "adjust_total v")
  have w: "Formatted f \<notin> set ws"
    using validate_InrD(8) [of d ws v] Inr r by (simp add: warnings_def)
  have j: "Formatted f \<notin> set adj"
    using a by (auto simp: adjust_total_def split: if_splits)
  have h: "Formatted f \<notin> set started" if "handle_branching t bs0 = Inr (started, bs)"
    for started bs bs0
    using that by (auto simp: handle_branching_def split: option.splits property.splits prod.splits)
  from assms Inr r a w j h have "f = formatThought env t"
    by (auto simp: processThought_def Let_def split: sum.splits prod.splits)
  with Inr r a show ?thesis by simp
qed

lemma coloured_thought_visible:
  "stripAnsi coloured_thought = uncoloured_thought"
  "stripAnsi uncoloured_thought = uncoloured_thought"
  by code_simp+

lemma uncoloured_width:
  "maxWidth plain_engine (plain_thought\<lparr>thought := uncoloured_thought\<rparr>) = 17"
  by code_simp

subsection \<open>Success and failure of a call\<close>

text \<open>
  A success comes from a validated input and lengthens the history by one. A failure
  comes from the validator, with the state unchanged, or from \<open>push\<close> on an inherited
  property, with the thought already in the history.
\<close>

lemma process_success:
  assumes "processThought env d st = (Success p, printed, st')"
  shows "(\<exists>ws v. validateThoughtData d = Inr (ws, v))
         \<and> length (thoughtHistory st') = Suc (length (thoughtHistory st))
         \<and> total_history_length p = length (thoughtHistory st')"
proof (cases "validateThoughtData d")
  case (Inl e)
  with assms show ?thesis by (simp add: process_invalid)
next
  case (Inr r)
  obtain ws v where r: "r = (ws, v)" by (cases r)
  obtain adj t where a: "adjust_total v = (adj, t)" by (cases "adjust_total v")
  from assms Inr r a show ?thesis
    by (auto simp: processThought_def Let_def split: sum.splits prod.splits)
qed

lemma process_failure:
  assumes "processThought env d st = (Failure e, printed, st')"
  shows "(validateThoughtData d = Inl e \<and> st' = st)
         \<or> (\<exists>ws v b i. validateThoughtData d = Inr (ws, v)
               \<and> branch_target (snd (adjust_total v)) = Some (b, i)
               \<and> read_branch (branches st) i = Inherited
               \<and> e = TypeError
               \<and> st' = st\<lparr>thoughtHistory := thoughtHistory st @ [snd (adjust_total v)]\<rparr>)"
proof (cases "validateThoughtData d")
  case (Inl e')
  with assms show ?thesis by (simp add: process_invalid)
next
  case (Inr r)
  obtain ws v where r: "r = (ws, v)" by (cases r)
  obtain adj t where a: "adjust_total v = (adj, t)" by (cases "adjust_total v")
  from assms Inr r a
  have f: "handle_branching t (branches st) = Inl e"
    and s: "st' = st\<lparr>thoughtHistory := thoughtHistory st @ [t]\<rparr>"
    by (auto simp: processThought_def Let_def split: sum.splits prod.splits)
  from f obtain b i where "branch_target t = Some (b, i)" "read_branch (branches st) i = Inherited"
    "e = TypeError"
    by (auto simp: handle_branching_def split: option.splits property.splits prod.splits)
  with Inr r a s show ?thesis by simp
qed

section \<open>The claims\<close>

text \<open>
  C1. The claim: for every raw input \<open>processThought\<close> returns a success or a failure
  and lets no exception out, and whenever it returns a failure the history and the
  branches are as they were before the call. The second half does not hold on the code:
  for a valid thought whose \<open>branchId\<close> is \<open>constructor\<close> (a property that the plain
  object \<open>branches\<close> inherits) the thought is pushed to the history, then
  \<open>branches[branchId].push\<close> throws, and the call returns a failure with the thought
  still stored. Every other failure leaves the state as it was (\<open>process_failure\<close>).
\<close>

theorem failure_after_history_push:
  "fst (processThought plain_engine inherited_name_input initial_state) = Failure TypeError
   \<and> thoughtHistory (snd (snd (processThought plain_engine inherited_name_input initial_state)))
       = [\<lparr>thought = ascii ''x'', thoughtNumber = 1, totalThoughts = 1,
            nextThoughtNeeded = False, confidence_score = None,
            knowledge_assessment = None, isRevision = None, revisesThought = None,
            branchFromThought = Some 1, branchId = Some (ascii ''constructor'')\<rparr>]
   \<and> thoughtHistory initial_state = []"
  by (simp add: processThought_def inherited_name_input_valid adjust_total_def
      handle_branching_def branch_target_def read_branch_def object_prototype_keys_def
      initial_state_def ascii_def)

text \<open>
  C2. The claim: \<open>processThought\<close> returns a success if and only if the input passes
  every check of the validator, and every success lengthens the history by one and
  reports the new length. The code does not return a success for every input that passes
  the validator: the input below passes it, and the call returns a failure. The rest of
  the claim holds (\<open>process_invalid\<close>, \<open>process_success\<close>).
\<close>

theorem validated_input_fails:
  "(\<exists>ws v. validateThoughtData inherited_name_input = Inr (ws, v))
   \<and> fst (processThought plain_engine inherited_name_input initial_state) = Failure TypeError"
  by (simp add: processThought_def inherited_name_input_valid adjust_total_def
      handle_branching_def branch_target_def read_branch_def object_prototype_keys_def
      initial_state_def ascii_def)

text \<open>
  C3. Every thought in the history has \<open>totalThoughts\<close> at least \<open>thoughtNumber\<close>,
  whatever calls were made on the instance. For an input that passes validation, the
  thought appended to the history is the validated one with \<open>totalThoughts\<close> raised to
  \<open>thoughtNumber\<close> where it was smaller and nothing else changed; the warning is
  printed exactly when the total was smaller; and \<open>current_total_thoughts\<close> of a
  success is the adjusted total. For \<open>thoughtNumber = 5\<close>, \<open>totalThoughts = 3\<close> the
  stored and the reported total are 5 (the witness).
\<close>

theorem total_at_least_number:
  "(\<forall>t \<in> set (thoughtHistory (run env inputs initial_state)).
      thoughtNumber t \<le> totalThoughts t)
   \<and> (\<forall>ws v. validateThoughtData d = Inr (ws, v) \<longrightarrow>
         thoughtHistory (snd (snd (processThought env d st)))
           = thoughtHistory st @ [v\<lparr>totalThoughts := max (thoughtNumber v) (totalThoughts v)\<rparr>]
         \<and> ((WarnAdjustingTotal (thoughtNumber v) (totalThoughts v)
                \<in> set (fst (snd (processThought env d st))))
              = (thoughtNumber v > totalThoughts v))
         \<and> (\<forall>p. fst (processThought env d st) = Success p \<longrightarrow>
               current_total_thoughts p = max (thoughtNumber v) (totalThoughts v)))"
proof -
  have "\<forall>t \<in> set (thoughtHistory (run env inputs initial_state)).
      thoughtNumber t \<le> totalThoughts t"
    by (rule run_keeps_order) (simp add: initial_state_def)
  then show ?thesis
    using process_valid_history [of d _ _ env st] process_valid_warning [of d _ _ env st]
      process_valid_total [of d _ _ env st]
    by (simp add: adjust_total_eq)
qed

theorem total_at_least_number_witness:
  "thoughtHistory (run plain_engine [five_of_three] initial_state)
     = [\<lparr>thought = ascii ''x'', thoughtNumber = 5, totalThoughts = 5,
          nextThoughtNeeded = True, confidence_score = None,
          knowledge_assessment = None, isRevision = None, revisesThought = None,
          branchFromThought = None, branchId = None\<rparr>]
   \<and> WarnAdjustingTotal 5 3
        \<in> set (fst (snd (processThought plain_engine five_of_three initial_state)))
   \<and> (\<exists>p. fst (processThought plain_engine five_of_three initial_state) = Success p
          \<and> current_total_thoughts p = 5)"
proof -
  note t = total_at_least_number [of plain_engine "[five_of_three]" five_of_three initial_state]
  from t five_of_three_valid
  have h: "thoughtHistory (snd (snd (processThought plain_engine five_of_three initial_state)))
           = [\<lparr>thought = ascii ''x'', thoughtNumber = 5, totalThoughts = 5,
          nextThoughtNeeded = True, confidence_score = None,
          knowledge_assessment = None, isRevision = None, revisesThought = None,
          branchFromThought = None, branchId = None\<rparr>]"
    and w: "WarnAdjustingTotal 5 3
        \<in> set (fst (snd (processThought plain_engine five_of_three initial_state)))"
    and p: "\<And>p. fst (processThought plain_engine five_of_three initial_state) = Success p
          \<Longrightarrow> current_total_thoughts p = 5"
    by (simp_all add: initial_state_def)
  from five_of_three_success p h w show ?thesis by auto
qed

text \<open>
  C4. The claim: \<open>branchId\<close> is kept in the validated thought only when it is a
  non-empty string, and any other value, the empty string included, is dropped without
  a failure. On the code the empty string is kept: the validator tests the type only.
\<close>

theorem empty_branchId_retained:
  "getprop (branch_input (JStr [])) (ascii ''branchId'') = JStr []
   \<and> (\<exists>ws v. validateThoughtData (branch_input (JStr [])) = Inr (ws, v)
         \<and> branchId v = Some [])"
  by (simp add: branch_input_valid) (simp add: branch_input_def required_fields_def ascii_def)

text \<open>
  C4, as amended. \<open>branchId\<close> is kept in the validated thought exactly when its value
  is a string, the empty string included, and with that value; any value that is no
  string is dropped. Whether validation fails, and with which error, does not depend on
  the value of \<open>branchId\<close>.
\<close>

theorem branchId_kept_when_string:
  "(validateThoughtData d = Inr (ws, v) \<longrightarrow>
      (\<forall>s. getprop d (ascii ''branchId'') = JStr s \<longrightarrow> branchId v = Some s)
      \<and> ((\<forall>s. getprop d (ascii ''branchId'') \<noteq> JStr s) \<longrightarrow> branchId v = None))
   \<and> ((validateThoughtData (setprop d (ascii ''branchId'') x) = Inl e)
        = (validateThoughtData d = Inl e))"
  using validate_InrD(7) [of d ws v] validate_failure_ignores_branchId [of d x e]
  by (auto simp: optional_string_iff optional_string_None)

theorem branchId_kept_when_string_witness:
  "(\<exists>ws v. validateThoughtData (branch_input (JStr (ascii ''A''))) = Inr (ws, v)
       \<and> branchId v = Some (ascii ''A''))
   \<and> (\<exists>ws v. validateThoughtData (branch_input (JNum 7)) = Inr (ws, v) \<and> branchId v = None)"
proof -
  have g: "getprop (branch_input b) (ascii ''branchId'') = b" for b
    by (simp add: branch_input_def required_fields_def ascii_def)
  from branchId_kept_when_string [of "branch_input (JStr (ascii ''A''))" _ _ JNull TypeError]
    branch_input_valid [of "JStr (ascii ''A'')"] g
  have 1: "\<exists>ws v. validateThoughtData (branch_input (JStr (ascii ''A''))) = Inr (ws, v)
       \<and> branchId v = Some (ascii ''A'')" by simp
  from branchId_kept_when_string [of "branch_input (JNum 7)" _ _ JNull TypeError]
    branch_input_valid [of "JNum 7"] g
  have 2: "\<exists>ws v. validateThoughtData (branch_input (JNum 7)) = Inr (ws, v) \<and> branchId v = None"
    by simp
  from 1 2 show ?thesis by blast
qed




text \<open>
  C6. The claim: when \<open>confidenceScore\<close> is present, validation fails, citing the
  field, if and only if the value is not a number within [0, 1]; \<open>confidenceScore = 1.5\<close>
  makes the call a failure. On the code a field of that name is not read at all (the
  field of the tool is \<open>confidence_score\<close>): with \<open>confidenceScore = 1.5\<close> the call
  succeeds.
\<close>

theorem confidenceScore_key_not_read:
  "getprop (with_field ''confidenceScore'' (JNum (3 / 2))) (ascii ''confidenceScore'')
     = JNum (3 / 2)
   \<and> (\<exists>p printed st'. processThought plain_engine (with_field ''confidenceScore'' (JNum (3 / 2)))
          initial_state = (Success p, printed, st'))"
proof -
  have "branchId plain_thought = None" by (simp add: plain_thought_def)
  from process_plain_success [OF unread_field_valid(1) this] with_field_get(3)
  show ?thesis by blast
qed

text \<open>
  C6, as amended. When the required fields pass their checks and \<open>confidence_score\<close> is
  present, validation fails with the message that cites \<open>confidence_score\<close> if and only
  if the value is not a number within [0, 1], and the whole call is then a failure with
  that message that stores nothing. With \<open>confidence_score = 1.5\<close> the call is such a
  failure; with \<open>confidence_score = 0.7\<close> it succeeds (the witness).
\<close>

theorem confidence_score_checked:
  "check_required d = Inr r \<and> getprop d (ascii ''confidence_score'') \<noteq> JUndefined \<longrightarrow>
     ((validateThoughtData d = Inl (Error msg_confidence))
        = (\<not> (\<exists>q. getprop d (ascii ''confidence_score'') = JNum q \<and> 0 \<le> q \<and> q \<le> 1)))
     \<and> (validateThoughtData d = Inl (Error msg_confidence) \<longrightarrow>
           processThought env d st
             = (Failure (Error msg_confidence), [ErrorProcessing (Error msg_confidence)], st))"
proof (intro impI, elim conjE)
  assume r: "check_required d = Inr r"
    and p: "getprop d (ascii ''confidence_score'') \<noteq> JUndefined"
  let ?c = "getprop d (ascii ''confidence_score'')"
  have 1: "(validateThoughtData d = Inl (Error msg_confidence))
        = (\<not> (\<exists>q. ?c = JNum q \<and> 0 \<le> q \<and> q \<le> 1))"
  proof (cases "check_confidence ?c")
    case (Inl e)
    with check_confidence_error have e: "e = Error msg_confidence" by blast
    from Inl have "\<not> (\<exists>c. check_confidence ?c = Inr c)" by simp
    with check_confidence_ok have "\<not> (\<exists>q. ?c = JNum q \<and> 0 \<le> q \<and> q \<le> 1)" by blast
    moreover have "validateThoughtData d = Inl (Error msg_confidence)"
      using r Inl e by (simp add: validateThoughtData_def split: prod.splits)
    ultimately show ?thesis by simp
  next
    case (Inr c)
    then have "\<exists>q. ?c = JNum q \<and> 0 \<le> q \<and> q \<le> 1"
      using check_confidence_ok [of ?c] p by blast
    moreover have "validateThoughtData d \<noteq> Inl (Error msg_confidence)"
      using r Inr check_knowledge_not_confidence
      by (auto simp: validateThoughtData_def Let_def split: prod.splits sum.splits)
    ultimately show ?thesis by simp
  qed
  have 2: "validateThoughtData d = Inl (Error msg_confidence) \<longrightarrow>
           processThought env d st
             = (Failure (Error msg_confidence), [ErrorProcessing (Error msg_confidence)], st)"
    by (simp add: process_invalid)
  from 1 2 show "((validateThoughtData d = Inl (Error msg_confidence))
        = (\<not> (\<exists>q. ?c = JNum q \<and> 0 \<le> q \<and> q \<le> 1)))
     \<and> (validateThoughtData d = Inl (Error msg_confidence) \<longrightarrow>
           processThought env d st
             = (Failure (Error msg_confidence), [ErrorProcessing (Error msg_confidence)], st))"
    by blast
qed

theorem confidence_score_checked_witness:
  "processThought plain_engine (with_field ''confidence_score'' (JNum (3 / 2))) initial_state
     = (Failure (Error ''Invalid input: `confidence_score` must be a number between 0.0 and 1.0.''),
        [ErrorProcessing
           (Error ''Invalid input: `confidence_score` must be a number between 0.0 and 1.0.'')],
        initial_state)
   \<and> (\<exists>p printed st'. processThought plain_engine (with_field ''confidence_score'' (JNum (7 / 10)))
          initial_state = (Success p, printed, st'))
   \<and> validateThoughtData (with_field ''confidence_score'' (JNum (7 / 10)))
       \<noteq> Inl (Error msg_confidence)"
proof -
  let ?bad = "with_field ''confidence_score'' (JNum (3 / 2))"
  let ?good = "with_field ''confidence_score'' (JNum (7 / 10))"
  have b: "\<not> (\<exists>q. getprop ?bad (ascii ''confidence_score'') = JNum q \<and> 0 \<le> q \<and> q \<le> 1)"
    by (simp add: with_field_get)
  have g: "\<exists>q. getprop ?good (ascii ''confidence_score'') = JNum q \<and> 0 \<le> q \<and> q \<le> 1"
    by (rule exI [of _ "7 / 10"]) (simp add: with_field_get)
  have rb: "check_required ?bad = Inr (ascii ''x'', 1, 1, False)"
    "getprop ?bad (ascii ''confidence_score'') \<noteq> JUndefined"
    by (simp_all add: with_field_required with_field_get)
  have rg: "check_required ?good = Inr (ascii ''x'', 1, 1, False)"
    "getprop ?good (ascii ''confidence_score'') \<noteq> JUndefined"
    by (simp_all add: with_field_required with_field_get)
  from confidence_score_checked [of ?bad "(ascii ''x'', 1, 1, False)" plain_engine initial_state]
    rb b
  have 1: "processThought plain_engine ?bad initial_state
     = (Failure (Error msg_confidence), [ErrorProcessing (Error msg_confidence)], initial_state)"
    by blast
  from confidence_score_checked [of ?good "(ascii ''x'', 1, 1, False)" plain_engine initial_state]
    rg g
  have 2: "validateThoughtData ?good \<noteq> Inl (Error msg_confidence)"
    by blast
  have 3: "\<exists>p printed st'. processThought plain_engine ?good initial_state = (Success p, printed, st')"
    by (rule process_plain_success [OF confidence_field_valid]) (simp add: plain_thought_def)
  from 1 2 3 show ?thesis by (simp add: msg_confidence_def)
qed

text \<open>
  C7. The claim: when \<open>knowledgeAssessment\<close> is present the call fails if the value is no
  sequence, and otherwise at the first element that is not well formed, reporting its
  index. On the code a field of that name is not read at all (the field of the tool is
  \<open>knowledge_assessment\<close>): with the two assessments of the example under
  \<open>knowledgeAssessment\<close> the call succeeds.
\<close>

theorem knowledgeAssessment_key_not_read:
  "getprop (with_field ''knowledgeAssessment'' texas_items) (ascii ''knowledgeAssessment'')
     = texas_items
   \<and> (\<exists>p printed st'. processThought plain_engine (with_field ''knowledgeAssessment'' texas_items)
          initial_state = (Success p, printed, st'))"
proof -
  have "branchId plain_thought = None" by (simp add: plain_thought_def)
  from process_plain_success [OF unread_field_valid(2) this] with_field_get(8)
  show ?thesis by blast
qed

text \<open>
  C7, as amended. When the required fields and \<open>confidence_score\<close> pass their checks
  and \<open>knowledge_assessment\<close> is present: if the value is no array, validation fails with
  the message that asks for an array; if it is an array of well-formed elements,
  validation succeeds; otherwise validation fails with the error that the check of the
  first element that is not well formed gives, which is one of three messages, each with
  the index of that element; and every such failure is the result of the whole call,
  which stores nothing. The two assessments of the example fail citing index 1 (the
  witness).
\<close>

theorem knowledge_assessment_checked:
  "check_required d = Inr r
   \<and> (\<exists>c. check_confidence (getprop d (ascii ''confidence_score'')) = Inr c)
   \<and> getprop d (ascii ''knowledge_assessment'') \<noteq> JUndefined
   \<longrightarrow>
     ((\<forall>items. getprop d (ascii ''knowledge_assessment'') \<noteq> JArr items) \<longrightarrow>
        validateThoughtData d = Inl (Error msg_knowledge_array))
     \<and> (\<forall>items. getprop d (ascii ''knowledge_assessment'') = JArr items \<longrightarrow>
          (list_all well_formed_item items \<longrightarrow> (\<exists>ws v. validateThoughtData d = Inr (ws, v)))
          \<and> (\<forall>j. j < length items \<and> (\<forall>j' < j. well_formed_item (items ! j'))
                  \<and> \<not> well_formed_item (items ! j) \<longrightarrow>
                (\<exists>e. check_item j (items ! j) = Inl e \<and> validateThoughtData d = Inl e
                   \<and> e \<in> {Error (msg_item_object j), Error (msg_item_entity j),
                           Error (msg_item_status j)})))
     \<and> (\<forall>e. validateThoughtData d = Inl e \<longrightarrow>
           processThought env d st = (Failure e, [ErrorProcessing e], st))"
proof (intro impI, elim conjE exE)
  fix c
  assume r: "check_required d = Inr r"
    and c: "check_confidence (getprop d (ascii ''confidence_score'')) = Inr c"
    and p: "getprop d (ascii ''knowledge_assessment'') \<noteq> JUndefined"
  let ?k = "getprop d (ascii ''knowledge_assessment'')"
  have v: "validateThoughtData d = Inl e" if "check_knowledge ?k = Inl e" for e
    using r c that by (simp add: validateThoughtData_def split: prod.splits)
  have w: "\<exists>ws v. validateThoughtData d = Inr (ws, v)" if "check_knowledge ?k = Inr ks" for ks
    using r c that by (simp add: validateThoughtData_def Let_def split: prod.splits)
  have 1: "(\<forall>items. ?k \<noteq> JArr items) \<longrightarrow> validateThoughtData d = Inl (Error msg_knowledge_array)"
    using p by (cases ?k) (auto intro: v)
  have 2: "\<exists>ws v. validateThoughtData d = Inr (ws, v)"
    if "?k = JArr items" "list_all well_formed_item items" for items
  proof -
    from map_items_all_well_formed [OF that(2), of 0] obtain ks where "map_items 0 items = Inr ks"
      by blast
    with that(1) have "check_knowledge ?k = Inr (Some ks)" by simp
    then show ?thesis by (rule w)
  qed
  have 3: "\<exists>e. check_item j (items ! j) = Inl e \<and> validateThoughtData d = Inl e
                   \<and> e \<in> {Error (msg_item_object j), Error (msg_item_entity j),
                           Error (msg_item_status j)}"
    if "?k = JArr items" "j < length items" "\<forall>j' < j. well_formed_item (items ! j')"
      "\<not> well_formed_item (items ! j)" for items j
  proof -
    from map_items_first_bad [OF that(2-4), of 0] obtain e where
      e: "check_item j (items ! j) = Inl e" "map_items 0 items = Inl e" by auto
    from e(2) that(1) have "check_knowledge ?k = Inl e" by simp
    then have "validateThoughtData d = Inl e" by (rule v)
    moreover from check_item_not_well_formed [OF that(4), of j] e(1)
    have "e \<in> {Error (msg_item_object j), Error (msg_item_entity j), Error (msg_item_status j)}"
      by auto
    ultimately show ?thesis using e(1) by blast
  qed
  have 4: "\<forall>e. validateThoughtData d = Inl e \<longrightarrow>
           processThought env d st = (Failure e, [ErrorProcessing e], st)"
    by (simp add: process_invalid)
  from 1 2 3 4
  show "((\<forall>items. ?k \<noteq> JArr items) \<longrightarrow>
        validateThoughtData d = Inl (Error msg_knowledge_array))
     \<and> (\<forall>items. ?k = JArr items \<longrightarrow>
          (list_all well_formed_item items \<longrightarrow> (\<exists>ws v. validateThoughtData d = Inr (ws, v)))
          \<and> (\<forall>j. j < length items \<and> (\<forall>j' < j. well_formed_item (items ! j'))
                  \<and> \<not> well_formed_item (items ! j) \<longrightarrow>
                (\<exists>e. check_item j (items ! j) = Inl e \<and> validateThoughtData d = Inl e
                   \<and> e \<in> {Error (msg_item_object j), Error (msg_item_entity j),
                           Error (msg_item_status j)})))
     \<and> (\<forall>e. validateThoughtData d = Inl e \<longrightarrow>
           processThought env d st = (Failure e, [ErrorProcessing e], st))"
    by blast
qed

theorem knowledge_assessment_checked_witness:
  "processThought plain_engine (with_field ''knowledge_assessment'' texas_items) initial_state
     = (Failure (Error (''Invalid item in knowledge_assessment at index 1: missing or invalid ''
                         @ [CHR 0x27] @ ''entity'' @ [CHR 0x27] @ '' string.'')),
        [ErrorProcessing
           (Error (''Invalid item in knowledge_assessment at index 1: missing or invalid ''
                         @ [CHR 0x27] @ ''entity'' @ [CHR 0x27] @ '' string.''))],
        initial_state)
   \<and> validateThoughtData (with_field ''knowledge_assessment'' (JNum 3))
       = Inl (Error msg_knowledge_array)"
proof -
  let ?d = "with_field ''knowledge_assessment'' texas_items"
  let ?items = "[JObj [(ascii ''entity'', JStr (ascii ''Texas'')), (ascii ''status'', JStr (ascii ''known''))],
           JObj [(ascii ''entity'', JStr []), (ascii ''status'', JStr (ascii ''known''))]]"
  have k: "getprop ?d (ascii ''knowledge_assessment'') = JArr ?items"
    by (simp add: with_field_get texas_items_def)
  have c: "\<exists>c. check_confidence (getprop ?d (ascii ''confidence_score'')) = Inr c"
    by (simp add: with_field_get)
  have wf: "well_formed_item (?items ! 0)" "\<not> well_formed_item (?items ! 1)"
    by (simp_all add: well_formed_item_def ascii_def)
  have ci: "check_item 1 (?items ! 1) = Inl (Error (msg_item_entity 1))"
    by (simp add: check_item_def ascii_def)
  note t = knowledge_assessment_checked [of ?d "(ascii ''x'', 1, 1, False)" plain_engine
      initial_state]
  from t k c wf have "\<exists>e. check_item 1 (?items ! 1) = Inl e \<and> validateThoughtData ?d = Inl e"
    by (auto simp: with_field_required less_Suc_eq)
  with ci have v: "validateThoughtData ?d = Inl (Error (msg_item_entity 1))" by simp
  with t k c have 1: "processThought plain_engine ?d initial_state
     = (Failure (Error (msg_item_entity 1)), [ErrorProcessing (Error (msg_item_entity 1))],
        initial_state)"
    by (simp add: with_field_required)
  let ?n = "with_field ''knowledge_assessment'' (JNum 3)"
  from knowledge_assessment_checked [of ?n "(ascii ''x'', 1, 1, False)" plain_engine initial_state]
  have 2: "validateThoughtData ?n = Inl (Error msg_knowledge_array)"
    by (simp add: with_field_required with_field_get)
  from 1 2 show ?thesis by (simp add: msg_item_entity_def)
qed

text \<open>
  C8. The width that the renderer uses for the frame is the greatest length, after
  \<open>stripAnsi\<close> has removed the escape sequences, among the header and the lines of the
  content blocks that are not empty; the top and the bottom border of the frame repeat the
  border literal that width plus 2 times. Hence two thoughts that differ only in their
  text, and there only by escape sequences (the same text after \<open>stripAnsi\<close>), get frames
  of one width. The frame is a function of the thought alone: whatever the state of the
  instance, the frames that two calls with one input print are the same.
\<close>

theorem frame_width_ignores_escapes:
  "maxWidth env t
     = Max (set (map (\<lambda>l. length (stripAnsi l))
               (header env t
                # concat (map split_lines
                    (filter (\<lambda>b. b \<noteq> [])
                       [thought t, confidenceLine env t, knowledgeLines env t])))))
   \<and> (\<exists>rest. formatThought env t
          = newline # box_top_left @ repeat box_horizontal (maxWidth env t + 2)
              @ box_top_right @ rest)
   \<and> (\<exists>front. formatThought env t
          = front @ newline # box_bottom_left @ repeat box_horizontal (maxWidth env t + 2)
              @ box_bottom_right)
   \<and> (stripAnsi th = stripAnsi (thought t) \<longrightarrow>
         maxWidth env (t\<lparr>thought := th\<rparr>) = maxWidth env t)
   \<and> (\<forall>f f'. Formatted f \<in> set (fst (snd (processThought env d st)))
              \<and> Formatted f' \<in> set (fst (snd (processThought env d st'))) \<longrightarrow> f = f')"
proof -
  have "f = f'" if "Formatted f \<in> set (fst (snd (processThought env d st)))"
    "Formatted f' \<in> set (fst (snd (processThought env d st')))" for f f'
    using formatted_only_frame [OF that(1)] formatted_only_frame [OF that(2)] by auto
  then show ?thesis
    using maxWidth_Max [of env t] formatThought_top [of env t] formatThought_bottom [of env t]
      maxWidth_visible [of th t env]
    by blast
qed

theorem frame_width_ignores_escapes_witness:
  "stripAnsi coloured_thought = uncoloured_thought
   \<and> length coloured_thought = 43 \<and> length uncoloured_thought = 34
   \<and> maxWidth plain_engine (plain_thought\<lparr>thought := coloured_thought\<rparr>) = 17
   \<and> maxWidth plain_engine (plain_thought\<lparr>thought := uncoloured_thought\<rparr>) = 17"
proof -
  let ?t = "plain_thought\<lparr>thought := uncoloured_thought\<rparr>"
  have "stripAnsi coloured_thought = stripAnsi (thought ?t)"
    by (simp add: coloured_thought_visible)
  with frame_width_ignores_escapes [of plain_engine ?t coloured_thought JNull initial_state
      initial_state]
  have "maxWidth plain_engine (?t\<lparr>thought := coloured_thought\<rparr>) = maxWidth plain_engine ?t"
    by blast
  then have "maxWidth plain_engine (plain_thought\<lparr>thought := coloured_thought\<rparr>) = 17"
    by (simp add: uncoloured_width)
  moreover have "length coloured_thought = 43" "length uncoloured_thought = 34"
    by (simp_all add: coloured_thought_def uncoloured_thought_def ascii_def)
  ultimately show ?thesis
    by (simp add: coloured_thought_visible uncoloured_width)
qed

text \<open>
  C9. The claim: for every input the validator accepts, each field of the data model
  that was present and accepted appears in the stored thought with the same value, and
  the deprecated \<open>needsMoreThoughts\<close> flag is never part of the stored thought. On the
  code the stored \<open>totalThoughts\<close> is not always the value of the input: for
  \<open>thoughtNumber = 5\<close>, \<open>totalThoughts = 3\<close> the input is accepted and the thought is
  stored with \<open>totalThoughts = 5\<close>.
\<close>

theorem stored_total_differs_from_input:
  "getprop five_of_three (ascii ''totalThoughts'') = JNum 3
   \<and> (\<exists>ws v. validateThoughtData five_of_three = Inr (ws, v))
   \<and> map totalThoughts
        (thoughtHistory (snd (snd (processThought plain_engine five_of_three initial_state))))
       = [5]"
proof -
  have 1: "getprop five_of_three (ascii ''totalThoughts'') = JNum 3"
    by (simp add: five_of_three_def ascii_def)
  have 2: "\<exists>ws v. validateThoughtData five_of_three = Inr (ws, v)"
    by (simp add: five_of_three_valid)
  have 3: "map totalThoughts
        (thoughtHistory (snd (snd (processThought plain_engine five_of_three initial_state))))
       = [5]"
    by (simp add: process_valid_history [OF five_of_three_valid] adjust_total_def
        initial_state_def)
  from 1 2 3 show ?thesis by blast
qed

text \<open>
  C9, as amended. For every input the validator accepts, each field that was present and
  accepted (\<open>thought\<close>, \<open>thoughtNumber\<close>, \<open>totalThoughts\<close>, \<open>nextThoughtNeeded\<close>,
  \<open>confidence_score\<close>, the \<open>entity\<close> and \<open>status\<close> of each element of
  \<open>knowledge_assessment\<close>, \<open>isRevision\<close>, \<open>revisesThought\<close>, \<open>branchFromThought\<close>,
  \<open>branchId\<close>) has the same value in the validated thought; the thought stored in the
  history is the validated one except that \<open>totalThoughts\<close> is raised to \<open>thoughtNumber\<close>
  where it was smaller; and the validated thought is the same whatever the value of
  \<open>needsMoreThoughts\<close>, for which the thought has no field.
\<close>

theorem validated_fields_round_trip:
  "validateThoughtData d = Inr (ws, v) \<longrightarrow>
     getprop d (ascii ''thought'') = JStr (thought v)
     \<and> getprop d (ascii ''thoughtNumber'') = JNum (thoughtNumber v)
     \<and> getprop d (ascii ''totalThoughts'') = JNum (totalThoughts v)
     \<and> getprop d (ascii ''nextThoughtNeeded'') = JBool (nextThoughtNeeded v)
     \<and> (\<forall>q. getprop d (ascii ''confidence_score'') = JNum q \<longrightarrow> confidence_score v = Some q)
     \<and> (\<forall>items. getprop d (ascii ''knowledge_assessment'') = JArr items \<longrightarrow>
           (\<exists>ks. knowledge_assessment v = Some ks \<and> list_all2 same_item items ks))
     \<and> (\<forall>b. getprop d (ascii ''isRevision'') = JBool b \<longrightarrow> isRevision v = Some b)
     \<and> (\<forall>q. getprop d (ascii ''revisesThought'') = JNum q \<and> of_int \<lfloor>q\<rfloor> = q \<and> 1 \<le> q
            \<longrightarrow> revisesThought v = Some q)
     \<and> (\<forall>q. getprop d (ascii ''branchFromThought'') = JNum q \<and> of_int \<lfloor>q\<rfloor> = q \<and> 1 \<le> q
            \<longrightarrow> branchFromThought v = Some q)
     \<and> (\<forall>s. getprop d (ascii ''branchId'') = JStr s \<longrightarrow> branchId v = Some s)
     \<and> thoughtHistory (snd (snd (processThought env d st)))
         = thoughtHistory st @ [v\<lparr>totalThoughts := max (thoughtNumber v) (totalThoughts v)\<rparr>]
     \<and> (\<exists>ws'. validateThoughtData (setprop d (ascii ''needsMoreThoughts'') x) = Inr (ws', v))"
proof
  assume ok: "validateThoughtData d = Inr (ws, v)"
  note r = check_required_InrD [OF validate_InrD(1) [OF ok]]
  have 1: "getprop d (ascii ''thought'') = JStr (thought v)" by (rule r(3))
  have 2: "getprop d (ascii ''thoughtNumber'') = JNum (thoughtNumber v)"
    using r(5) by (simp add: positive_integer_iff)
  have 3: "getprop d (ascii ''totalThoughts'') = JNum (totalThoughts v)"
    using r(6) by (simp add: positive_integer_iff)
  have 4: "getprop d (ascii ''nextThoughtNeeded'') = JBool (nextThoughtNeeded v)" by (rule r(7))
  have 5: "\<forall>q. getprop d (ascii ''confidence_score'') = JNum q \<longrightarrow> confidence_score v = Some q"
    using check_confidence_InrD [OF validate_InrD(2) [OF ok]] by blast
  have 6: "\<forall>items. getprop d (ascii ''knowledge_assessment'') = JArr items \<longrightarrow>
           (\<exists>ks. knowledge_assessment v = Some ks \<and> list_all2 same_item items ks)"
    using check_knowledge_InrD [OF validate_InrD(3) [OF ok]] by blast
  have 7: "\<forall>b. getprop d (ascii ''isRevision'') = JBool b \<longrightarrow> isRevision v = Some b"
    using validate_InrD(4) [OF ok] by (simp add: optional_boolean_iff)
  have 8: "\<forall>q. getprop d (ascii ''revisesThought'') = JNum q \<and> of_int \<lfloor>q\<rfloor> = q \<and> 1 \<le> q
            \<longrightarrow> revisesThought v = Some q"
    using validate_InrD(5) [OF ok] by (simp add: positive_integer_iff)
  have 9: "\<forall>q. getprop d (ascii ''branchFromThought'') = JNum q \<and> of_int \<lfloor>q\<rfloor> = q \<and> 1 \<le> q
            \<longrightarrow> branchFromThought v = Some q"
    using validate_InrD(6) [OF ok] by (simp add: positive_integer_iff)
  have 10: "\<forall>s. getprop d (ascii ''branchId'') = JStr s \<longrightarrow> branchId v = Some s"
    using validate_InrD(7) [OF ok] by (simp add: optional_string_iff)
  have 11: "thoughtHistory (snd (snd (processThought env d st)))
         = thoughtHistory st @ [v\<lparr>totalThoughts := max (thoughtNumber v) (totalThoughts v)\<rparr>]"
    using process_valid_history [OF ok] by (simp add: adjust_total_eq)
  note 12 = validate_ignores_deprecated [OF ok, of x]
  from 1 2 3 4 5 6 7 8 9 10 11 12
  show "getprop d (ascii ''thought'') = JStr (thought v)
     \<and> getprop d (ascii ''thoughtNumber'') = JNum (thoughtNumber v)
     \<and> getprop d (ascii ''totalThoughts'') = JNum (totalThoughts v)
     \<and> getprop d (ascii ''nextThoughtNeeded'') = JBool (nextThoughtNeeded v)
     \<and> (\<forall>q. getprop d (ascii ''confidence_score'') = JNum q \<longrightarrow> confidence_score v = Some q)
     \<and> (\<forall>items. getprop d (ascii ''knowledge_assessment'') = JArr items \<longrightarrow>
           (\<exists>ks. knowledge_assessment v = Some ks \<and> list_all2 same_item items ks))
     \<and> (\<forall>b. getprop d (ascii ''isRevision'') = JBool b \<longrightarrow> isRevision v = Some b)
     \<and> (\<forall>q. getprop d (ascii ''revisesThought'') = JNum q \<and> of_int \<lfloor>q\<rfloor> = q \<and> 1 \<le> q
            \<longrightarrow> revisesThought v = Some q)
     \<and> (\<forall>q. getprop d (ascii ''branchFromThought'') = JNum q \<and> of_int \<lfloor>q\<rfloor> = q \<and> 1 \<le> q
            \<longrightarrow> branchFromThought v = Some q)
     \<and> (\<forall>s. getprop d (ascii ''branchId'') = JStr s \<longrightarrow> branchId v = Some s)
     \<and> thoughtHistory (snd (snd (processThought env d st)))
         = thoughtHistory st @ [v\<lparr>totalThoughts := max (thoughtNumber v) (totalThoughts v)\<rparr>]
     \<and> (\<exists>ws'. validateThoughtData (setprop d (ascii ''needsMoreThoughts'') x) = Inr (ws', v))"
    by blast
qed

theorem validated_fields_round_trip_witness:
  "\<exists>ws v. validateThoughtData full_input = Inr (ws, v)
     \<and> thought v = ascii ''x'' \<and> thoughtNumber v = 2 \<and> totalThoughts v = 4
     \<and> nextThoughtNeeded v = True \<and> confidence_score v = Some (7 / 10)
     \<and> (\<exists>k. knowledge_assessment v = Some [k]
            \<and> entity k = ascii ''Texas'' \<and> status k = ascii ''known'')
     \<and> isRevision v = Some True \<and> revisesThought v = Some 1
     \<and> branchFromThought v = Some 1 \<and> branchId v = Some (ascii ''A'')
     \<and> thoughtHistory (snd (snd (processThought plain_engine full_input initial_state))) = [v]"
proof -
  obtain ws v where ok: "validateThoughtData full_input = Inr (ws, v)"
    using full_input_valid by blast
  have g: "getprop full_input (ascii ''thought'') = JStr (ascii ''x'')"
    "getprop full_input (ascii ''thoughtNumber'') = JNum 2"
    "getprop full_input (ascii ''totalThoughts'') = JNum 4"
    "getprop full_input (ascii ''nextThoughtNeeded'') = JBool True"
    "getprop full_input (ascii ''confidence_score'') = JNum (7 / 10)"
    "getprop full_input (ascii ''knowledge_assessment'')
       = JArr [JObj [(ascii ''entity'', JStr (ascii ''Texas'')),
                     (ascii ''status'', JStr (ascii ''known''))]]"
    "getprop full_input (ascii ''isRevision'') = JBool True"
    "getprop full_input (ascii ''revisesThought'') = JNum 1"
    "getprop full_input (ascii ''branchFromThought'') = JNum 1"
    "getprop full_input (ascii ''branchId'') = JStr (ascii ''A'')"
    by (simp_all add: full_input_def ascii_def)
  from validated_fields_round_trip [of full_input ws v plain_engine initial_state JNull] ok
  have f: "getprop full_input (ascii ''thought'') = JStr (thought v)"
    "getprop full_input (ascii ''thoughtNumber'') = JNum (thoughtNumber v)"
    "getprop full_input (ascii ''totalThoughts'') = JNum (totalThoughts v)"
    "getprop full_input (ascii ''nextThoughtNeeded'') = JBool (nextThoughtNeeded v)"
    "\<forall>q. getprop full_input (ascii ''confidence_score'') = JNum q \<longrightarrow> confidence_score v = Some q"
    "\<forall>items. getprop full_input (ascii ''knowledge_assessment'') = JArr items \<longrightarrow>
           (\<exists>ks. knowledge_assessment v = Some ks \<and> list_all2 same_item items ks)"
    "\<forall>b. getprop full_input (ascii ''isRevision'') = JBool b \<longrightarrow> isRevision v = Some b"
    "\<forall>q. getprop full_input (ascii ''revisesThought'') = JNum q \<and> of_int \<lfloor>q\<rfloor> = q \<and> 1 \<le> q
            \<longrightarrow> revisesThought v = Some q"
    "\<forall>q. getprop full_input (ascii ''branchFromThought'') = JNum q \<and> of_int \<lfloor>q\<rfloor> = q \<and> 1 \<le> q
            \<longrightarrow> branchFromThought v = Some q"
    "\<forall>s. getprop full_input (ascii ''branchId'') = JStr s \<longrightarrow> branchId v = Some s"
    "thoughtHistory (snd (snd (processThought plain_engine full_input initial_state)))
         = thoughtHistory initial_state @ [v\<lparr>totalThoughts := max (thoughtNumber v) (totalThoughts v)\<rparr>]"
    by blast+
  from f(1-4) g(1-4) have a: "thought v = ascii ''x''" "thoughtNumber v = 2" "totalThoughts v = 4"
    "nextThoughtNeeded v = True" by simp_all
  from f(5) g(5) have b: "confidence_score v = Some (7 / 10)" by simp
  from f(6) g(6) obtain ks where ks: "knowledge_assessment v = Some ks"
    "list_all2 same_item [JObj [(ascii ''entity'', JStr (ascii ''Texas'')),
                     (ascii ''status'', JStr (ascii ''known''))]] ks" by auto
  from ks(2) obtain k where k: "ks = [k]"
    "same_item (JObj [(ascii ''entity'', JStr (ascii ''Texas'')),
                     (ascii ''status'', JStr (ascii ''known''))]) k"
    by (auto simp: list_all2_Cons1)
  from k(2) have k2: "entity k = ascii ''Texas''" "status k = ascii ''known''"
    by (simp_all add: same_item_def ascii_def)
  from f(7-10) g(7-10) have c: "isRevision v = Some True" "revisesThought v = Some 1"
    "branchFromThought v = Some 1" "branchId v = Some (ascii ''A'')" by auto
  from f(11) a have h: "thoughtHistory (snd (snd (processThought plain_engine full_input initial_state))) = [v]"
    by (simp add: initial_state_def)
  from ok a b ks(1) k(1) k2 c h show ?thesis by blast
qed




end
